theory Spec2Isabelle
  imports Main
begin

section \<open>Errors\<close>

text \<open>
  Every exception the modelled code can raise is a value. \<open>ValueError msg names\<close> carries
  the message prefix and the list that the source formats into the message.
\<close>

datatype py_error =
    KeyError string
  | ValueError string "string list"
  | AttributeError
  | ImportError
  | OSError
  | FileNotFoundError string
  | IndexError

section \<open>Strings\<close>

text \<open>
  Python strings are modelled as \<^typ>\<open>string\<close>; a character stands for the code point of
  the same number, so the model covers the code points below 256. The character classes
  below are those of \<open>str.isspace\<close>, \<open>\s\<close>, \<open>\w\<close>, \<open>\d\<close> and of the Unicode
  punctuation categories on that range.
\<close>

definition is_space :: "char \<Rightarrow> bool" where
  "is_space c =
     (let n = (of_char c :: nat)
      in (9 \<le> n \<and> n \<le> 13) \<or> (28 \<le> n \<and> n \<le> 32) \<or> n = 133 \<or> n = 160)"

definition is_digit :: "char \<Rightarrow> bool" where
  "is_digit c = (let n = (of_char c :: nat) in 48 \<le> n \<and> n \<le> 57)"

definition is_word :: "char \<Rightarrow> bool" where
  "is_word c =
     (let n = (of_char c :: nat)
      in (48 \<le> n \<and> n \<le> 57) \<or> (65 \<le> n \<and> n \<le> 90) \<or> n = 95 \<or> (97 \<le> n \<and> n \<le> 122)
         \<or> n = 170 \<or> n = 178 \<or> n = 179 \<or> n = 181 \<or> n = 185 \<or> n = 186
         \<or> (188 \<le> n \<and> n \<le> 190) \<or> (192 \<le> n \<and> n \<le> 214)
         \<or> (216 \<le> n \<and> n \<le> 246) \<or> (248 \<le> n \<and> n \<le> 255))"

definition is_punct :: "char \<Rightarrow> bool" where
  "is_punct c =
     (let n = (of_char c :: nat)
      in (33 \<le> n \<and> n \<le> 35) \<or> (37 \<le> n \<and> n \<le> 42) \<or> (44 \<le> n \<and> n \<le> 47)
         \<or> n = 58 \<or> n = 59 \<or> n = 63 \<or> n = 64 \<or> (91 \<le> n \<and> n \<le> 93) \<or> n = 95
         \<or> n = 123 \<or> n = 125 \<or> n = 161 \<or> n = 167 \<or> n = 171 \<or> n = 182 \<or> n = 183
         \<or> n = 187 \<or> n = 191)"

definition lower_char :: "char \<Rightarrow> char" where
  "lower_char c =
     (let n = (of_char c :: nat)
      in if (65 \<le> n \<and> n \<le> 90) \<or> (192 \<le> n \<and> n \<le> 214) \<or> (216 \<le> n \<and> n \<le> 222)
         then char_of (n + 32) else c)"

definition lower :: "string \<Rightarrow> string" where
  "lower s = map lower_char s"

definition lstrip :: "string \<Rightarrow> string" where
  "lstrip s = dropWhile is_space s"

definition rstrip :: "string \<Rightarrow> string" where
  "rstrip s = rev (dropWhile is_space (rev s))"

text \<open>\<open>s.strip()\<close>: leading and trailing whitespace removed.\<close>

definition strip :: "string \<Rightarrow> string" where
  "strip s = rstrip (lstrip s)"

text \<open>\<open>s.strip(ch)\<close> for a single character \<open>ch\<close>.\<close>

definition strip_char :: "char \<Rightarrow> string \<Rightarrow> string" where
  "strip_char ch s = rev (dropWhile (\<lambda>c. c = ch) (rev (dropWhile (\<lambda>c. c = ch) s)))"

text \<open>\<open>sep.join(xs)\<close>.\<close>

fun join :: "string \<Rightarrow> string list \<Rightarrow> string" where
  "join sep [] = []"
| "join sep [x] = x"
| "join sep (x # y # ys) = x @ sep @ join sep (y # ys)"

definition starts_with :: "string \<Rightarrow> string \<Rightarrow> bool" where
  "starts_with p s = (take (length p) s = p)"

text \<open>Prefix test under \<open>re.IGNORECASE\<close>.\<close>

definition starts_with_ci :: "string \<Rightarrow> string \<Rightarrow> bool" where
  "starts_with_ci p s = (lower (take (length p) s) = lower p)"

text \<open>
  \<open>s.split(sep)\<close> for a non-empty separator: the occurrences of \<open>sep\<close> are found from the
  left and do not overlap. Python rejects the empty separator; the source only passes the
  literal \<open>", "\<close>.
\<close>

function split_str :: "string \<Rightarrow> string \<Rightarrow> string list" where
  "split_str sep [] = [[]]"
| "split_str sep (c # cs) =
     (if sep \<noteq> [] \<and> starts_with sep (c # cs)
      then [] # split_str sep (drop (length sep - 1) cs)
      else (case split_str sep cs of
              w # ws \<Rightarrow> (c # w) # ws
            | [] \<Rightarrow> [[c]]))"
  by pat_completeness auto
termination
  by (relation "measure (\<lambda>(sep, s). length s)") auto

section \<open>Regular-expression substitution\<close>

text \<open>
  A pattern is given by its matcher: the length of the match that starts at the head of the
  remaining text, if there is one. All patterns of the source match at least one character.
  \<open>re_sub m repl s\<close> is \<open>re.sub(pattern, repl, s)\<close>: the text is scanned from the left,
  each match is replaced and the scan goes on behind it.
\<close>

function re_sub :: "(string \<Rightarrow> nat option) \<Rightarrow> string \<Rightarrow> string \<Rightarrow> string" where
  "re_sub m repl [] = []"
| "re_sub m repl (c # cs) =
     (case m (c # cs) of
        Some n \<Rightarrow> repl @ re_sub m repl (drop (n - 1) cs)
      | None \<Rightarrow> c # re_sub m repl cs)"
  by pat_completeness auto
termination
  by (relation "measure (\<lambda>(m, repl, s). length s)") auto

text \<open>\<open>pattern.search(s) is not None\<close>.\<close>

fun re_search :: "(string \<Rightarrow> nat option) \<Rightarrow> string \<Rightarrow> bool" where
  "re_search m [] = False"
| "re_search m (c # cs) = (m (c # cs) \<noteq> None \<or> re_search m cs)"

definition run_len :: "(char \<Rightarrow> bool) \<Rightarrow> string \<Rightarrow> nat" where
  "run_len P s = length (takeWhile P s)"

text \<open>\<open>URL_RE = https?://\S+|www\.\S+\<close>\<close>

definition url_tail :: "nat \<Rightarrow> string \<Rightarrow> nat option" where
  "url_tail k s =
     (let n = run_len (\<lambda>c. \<not> is_space c) (drop k s) in if 0 < n then Some (k + n) else None)"

definition URL_RE :: "string \<Rightarrow> nat option" where
  "URL_RE s =
     (if starts_with ''https://'' s \<and> url_tail 8 s \<noteq> None then url_tail 8 s
      else if starts_with ''http://'' s \<and> url_tail 7 s \<noteq> None then url_tail 7 s
      else if starts_with ''www.'' s then url_tail 4 s
      else None)"

text \<open>\<open>HTML_TAG_RE = <[^>]+>\<close>\<close>

definition HTML_TAG_RE :: "string \<Rightarrow> nat option" where
  "HTML_TAG_RE s =
     (case s of
        [] \<Rightarrow> None
      | c # cs \<Rightarrow>
          (let k = run_len (\<lambda>x. x \<noteq> CHR ''>'') cs
           in if c = CHR ''<'' \<and> 0 < k \<and> k < length cs then Some (k + 2) else None))"

text \<open>\<open>HANDLE_RE = @\w+\<close> and \<open>HASHTAG_RE = #\w+\<close>\<close>

definition sigil_word :: "char \<Rightarrow> string \<Rightarrow> nat option" where
  "sigil_word ch s =
     (case s of
        [] \<Rightarrow> None
      | c # cs \<Rightarrow>
          (let k = run_len is_word cs in if c = ch \<and> 0 < k then Some (k + 1) else None))"

definition HANDLE_RE :: "string \<Rightarrow> nat option" where
  "HANDLE_RE = sigil_word (CHR ''@'')"

definition HASHTAG_RE :: "string \<Rightarrow> nat option" where
  "HASHTAG_RE = sigil_word (CHR ''#'')"

text \<open>\<open>DIGIT_RE = \d+\<close>\<close>

definition DIGIT_RE :: "string \<Rightarrow> nat option" where
  "DIGIT_RE s = (let k = run_len is_digit s in if 0 < k then Some k else None)"

section \<open>Text Normalizer (\<open>TextPreprocessor\<close>)\<close>

record PreprocessingCfg =
  enable :: bool
  language :: string
  remove_html :: bool
  remove_urls :: bool
  remove_emails :: bool
  remove_user_handles :: bool
  remove_hashtags :: bool
  lowercase :: bool
  remove_digits :: bool
  remove_punctuation :: bool
  collapse_whitespace :: bool
  lemmatize :: bool

text \<open>
  What the normalizer takes from outside the repository: \<open>html.unescape\<close>, the
  substitution of \<open>EMAIL_RE\<close> (a pattern with word-boundary assertions, left to the
  regular-expression engine), and spaCy. \<open>SpacyMissing\<close>: the package cannot be
  imported; \<open>ModelMissing\<close>: \<open>spacy.load\<close> raises \<open>OSError\<close>; \<open>Pipeline f\<close>: the loaded
  model, \<open>f\<close> giving the lemma of each token. The cached \<open>_nlp\<close> attribute only saves
  a reload and is not part of the state.
\<close>

datatype spacy_env = SpacyMissing | ModelMissing | Pipeline "string \<Rightarrow> string list"

record text_env =
  html_unescape :: "string \<Rightarrow> string"
  sub_EMAIL_RE :: "string \<Rightarrow> string \<Rightarrow> string"
  spacy :: spacy_env

definition lemmatize_text :: "text_env \<Rightarrow> string \<Rightarrow> py_error + string" where
  "lemmatize_text env text =
     (case spacy env of
        SpacyMissing \<Rightarrow> Inl ImportError
      | ModelMissing \<Rightarrow> Inr text
      | Pipeline lemmas \<Rightarrow> Inr (join '' '' (lemmas text)))"

text \<open>\<open>re.sub(r"\s+", " ", text)\<close>: every maximal run of whitespace becomes one space.\<close>

function sub_ws :: "string \<Rightarrow> string" where
  "sub_ws [] = []"
| "sub_ws (c # cs) =
     (if is_space c then CHR '' '' # sub_ws (dropWhile is_space cs) else c # sub_ws cs)"
  by pat_completeness auto
termination
  by (relation "measure length") (auto simp: length_dropWhile_le less_Suc_eq_le)

text \<open>The step guarded by \<open>collapse_whitespace\<close>: \<open>re.sub(r"\s+", " ", text).strip()\<close>.\<close>

definition collapse_whitespace_step :: "string \<Rightarrow> string" where
  "collapse_whitespace_step text = strip (sub_ws text)"

definition when_on :: "bool \<Rightarrow> (string \<Rightarrow> string) \<Rightarrow> string \<Rightarrow> string" where
  "when_on b f text = (if b then f text else text)"

text \<open>\<open>TextPreprocessor.__call__\<close>\<close>

definition preprocess :: "text_env \<Rightarrow> PreprocessingCfg \<Rightarrow> string \<Rightarrow> py_error + string" where
  "preprocess env cfg text =
     (if \<not> enable cfg then Inr text
      else
        let t0 = html_unescape env text;
            t1 = when_on (remove_html cfg) (re_sub HTML_TAG_RE '' '') t0;
            t2 = when_on (remove_urls cfg) (re_sub URL_RE '' '') t1;
            t3 = when_on (remove_emails cfg) (sub_EMAIL_RE env '' '') t2;
            t4 = when_on (remove_user_handles cfg) (re_sub HANDLE_RE '' '') t3;
            t5 = when_on (remove_hashtags cfg) (re_sub HASHTAG_RE '' '') t4;
            t6 = when_on (lowercase cfg) lower t5;
            t7 = when_on (remove_digits cfg) (re_sub DIGIT_RE '' '') t6;
            t8 = when_on (remove_punctuation cfg) (filter (\<lambda>c. \<not> is_punct c)) t7;
            t9 = when_on (collapse_whitespace cfg) collapse_whitespace_step t8
        in if lemmatize cfg then lemmatize_text env t9 else Inr t9)"

text \<open>
  The words of the specification for the whitespace step, written independently of the
  code: the maximal runs of non-whitespace characters, in order, with one space between
  neighbours and nothing before the first or after the last.
\<close>

function ws_words :: "string \<Rightarrow> string list" where
  "ws_words [] = []"
| "ws_words (c # cs) =
     (if is_space c then ws_words cs
      else (c # takeWhile (\<lambda>x. \<not> is_space x) cs)
             # ws_words (dropWhile (\<lambda>x. \<not> is_space x) cs))"
  by pat_completeness auto
termination
  by (relation "measure length") (auto simp: length_dropWhile_le less_Suc_eq_le)

definition spec_collapse :: "string \<Rightarrow> string" where
  "spec_collapse s = join '' '' (ws_words s)"

text \<open>The words of a text are not empty and hold no whitespace.\<close>

definition tokens_ok :: "string list \<Rightarrow> bool" where
  "tokens_ok ts = list_all (\<lambda>t. t \<noteq> [] \<and> list_all (\<lambda>c. \<not> is_space c) t) ts"

section \<open>Parsed messages\<close>

text \<open>
  A message object of Python's \<open>email\<close> package, as far as the pipeline looks at it. A part
  carries what \<open>get_content_type()\<close>, \<open>get_content_disposition()\<close> and
  \<open>get_content_charset()\<close> return. A leaf also carries \<open>get_payload(decode=True)\<close>
  (bytes, or \<open>None\<close>), \<open>get_payload()\<close> and the result of \<open>get_content()\<close> (\<open>None\<close>
  when it raises); a container carries its sub-parts, and \<open>is_multipart()\<close> is true of
  exactly the containers.
\<close>

record part_headers =
  ctype :: string
  disp :: "string option"
  charset :: "string option"

record leaf_body =
  payload_bytes :: "string option"
  payload_str :: string
  content :: "string option"

datatype part = Leaf part_headers leaf_body | Multi part_headers "part list"

fun hdrs :: "part \<Rightarrow> part_headers" where
  "hdrs (Leaf h b) = h"
| "hdrs (Multi h ps) = h"

fun is_multipart :: "part \<Rightarrow> bool" where
  "is_multipart (Leaf h b) = False"
| "is_multipart (Multi h ps) = True"

definition get_content_type :: "part \<Rightarrow> string" where
  "get_content_type p = ctype (hdrs p)"

definition get_content_disposition :: "part \<Rightarrow> string option" where
  "get_content_disposition p = disp (hdrs p)"

text \<open>\<open>part.get_content()\<close>; on a container the content manager raises.\<close>

fun get_content :: "part \<Rightarrow> string option" where
  "get_content (Leaf h b) = content b"
| "get_content (Multi h ps) = None"

text \<open>\<open>msg.walk()\<close>: the part itself, then its sub-parts, depth first.\<close>

fun walk :: "part \<Rightarrow> part list" where
  "walk (Leaf h b) = [Leaf h b]"
| "walk (Multi h ps) = Multi h ps # concat (map walk ps)"

record message =
  headers :: "(string \<times> string) list"
  top_part :: part

text \<open>
  What the parser takes from the standard library: \<open>bytes.decode(cs, "replace")\<close>
  (\<open>None\<close> when the codec is unknown), \<open>bytes.decode(errors="replace")\<close> with the
  default codec, \<open>str.encode("utf-8", "ignore")\<close>,
  \<open>BytesParser(policy=policy.default).parsebytes\<close> (\<open>None\<close> when it raises),
  \<open>policy.header_fetch_parse\<close> and \<open>email.utils.getaddresses\<close>. Under
  \<open>policy.default\<close> a header is stored as it stands in the file and parsed when it is
  read, and that parse raises on some malformed values (an \<open>IndexError\<close> on the address
  header \<open>From: <\<close>, for one).
\<close>

record mail_env =
  decode :: "string \<Rightarrow> string \<Rightarrow> string option"
  decode_utf8 :: "string \<Rightarrow> string"
  encode_utf8 :: "string \<Rightarrow> string"
  parsebytes :: "string \<Rightarrow> message option"
  header_fetch_parse :: "string \<Rightarrow> string \<Rightarrow> py_error + string"
  getaddresses :: "string list \<Rightarrow> py_error + (string \<times> string) list"

text \<open>\<open>msg.get(name, "") or ""\<close>: the first header of that name, compared without case,
  parsed as it is read; the empty text when there is none.\<close>

definition get_header :: "mail_env \<Rightarrow> message \<Rightarrow> string \<Rightarrow> py_error + string" where
  "get_header env msg name =
     (case find (\<lambda>kv. lower (fst kv) = lower name) (headers msg) of
        None \<Rightarrow> Inr ''''
      | Some kv \<Rightarrow> header_fetch_parse env (fst kv) (snd kv))"

text \<open>The loop of \<open>get_all\<close> over the headers of the name: each is parsed in turn, and the
  first that raises ends the call.\<close>

fun fetch_all :: "mail_env \<Rightarrow> (string \<times> string) list \<Rightarrow> py_error + string list" where
  "fetch_all env [] = Inr []"
| "fetch_all env (kv # kvs) =
     (case header_fetch_parse env (fst kv) (snd kv) of
        Inl e \<Rightarrow> Inl e
      | Inr v \<Rightarrow>
          (case fetch_all env kvs of
             Inl e \<Rightarrow> Inl e
           | Inr vs \<Rightarrow> Inr (v # vs)))"

text \<open>\<open>msg.get_all(name, []) or []\<close>\<close>

definition get_all :: "mail_env \<Rightarrow> message \<Rightarrow> string \<Rightarrow> py_error + string list" where
  "get_all env msg name =
     fetch_all env (filter (\<lambda>kv. lower (fst kv) = lower name) (headers msg))"

section \<open>Message Parser of the pipeline (\<open>EmailDataset\<close>)\<close>

text \<open>\<open>EmailDataset._dec\<close>. On a container \<open>get_payload(decode=True)\<close> is \<open>None\<close> and
  \<open>get_payload()\<close> is the list of sub-parts, which has no \<open>encode\<close> unless it is empty
  (then \<open>or ""\<close> replaces it).\<close>

fun dec :: "mail_env \<Rightarrow> part \<Rightarrow> py_error + string" where
  "dec env (Leaf h b) =
     (case payload_bytes b of
        None \<Rightarrow> Inr (encode_utf8 env (payload_str b))
      | Some bs \<Rightarrow> Inr bs)"
| "dec env (Multi h ps) = (if ps = [] then Inr (encode_utf8 env '''') else Inl AttributeError)"

text \<open>\<open>EmailDataset._txt\<close>. The Latin-1 decoding of the handler maps each byte to the
  character of the same code.\<close>

definition txt_of :: "mail_env \<Rightarrow> part \<Rightarrow> py_error + string" where
  "txt_of env p =
     (let cs0 = lower (strip_char (CHR 0x22)
                  (strip (case charset (hdrs p) of None \<Rightarrow> '''' | Some c \<Rightarrow> c)));
          cs = (if cs0 = [] then ''utf-8'' else cs0);
          attempt = (case dec env p of Inl e \<Rightarrow> None | Inr bs \<Rightarrow> decode env cs bs)
      in case attempt of
           Some s \<Rightarrow> Inr s
         | None \<Rightarrow> (case dec env p of Inl e \<Rightarrow> Inl e | Inr bs \<Rightarrow> Inr bs))"

text \<open>Index of the first occurrence of a pattern, compared without case.\<close>

fun find_ci :: "string \<Rightarrow> string \<Rightarrow> nat option" where
  "find_ci pat [] = (if pat = [] then Some 0 else None)"
| "find_ci pat (c # cs) =
     (if starts_with_ci pat (c # cs) then Some 0 else map_option Suc (find_ci pat cs))"

text \<open>\<open>(?is)<(script|style).*?>.*?</\1>\<close> for one of the two names: the opening tag runs to
  the first closing angle bracket, the block to the first closing tag of the same name
  behind it.\<close>

definition block_match :: "string \<Rightarrow> string \<Rightarrow> nat option" where
  "block_match name s =
     (if starts_with_ci (CHR ''<'' # name) s
      then
        (let rest = drop (length name + 1) s;
             k = run_len (\<lambda>x. x \<noteq> CHR ''>'') rest
         in if k < length rest
            then (case find_ci (''</'' @ name @ ''>'') (drop (k + 1) rest) of
                    None \<Rightarrow> None
                  | Some j \<Rightarrow> Some (length name + 1 + k + 1 + j + length name + 3))
            else None)
      else None)"

definition SCRIPT_STYLE_RE :: "string \<Rightarrow> nat option" where
  "SCRIPT_STYLE_RE s =
     (case block_match ''script'' s of
        Some n \<Rightarrow> Some n
      | None \<Rightarrow> block_match ''style'' s)"

text \<open>\<open>(?is)<br\s*/?>|</p>\<close>\<close>

definition BREAK_RE :: "string \<Rightarrow> nat option" where
  "BREAK_RE s =
     (let k = run_len is_space (drop 3 s);
          rest = drop (3 + k) s
      in if starts_with_ci ''<br'' s \<and> starts_with ''/>'' rest then Some (3 + k + 2)
         else if starts_with_ci ''<br'' s \<and> starts_with ''>'' rest then Some (3 + k + 1)
         else if starts_with_ci ''</p>'' s then Some 4
         else None)"

text \<open>\<open>(?is)<.*?>\<close>\<close>

definition ANY_TAG_RE :: "string \<Rightarrow> nat option" where
  "ANY_TAG_RE s =
     (case s of
        [] \<Rightarrow> None
      | c # cs \<Rightarrow>
          (let k = run_len (\<lambda>x. x \<noteq> CHR ''>'') cs
           in if c = CHR ''<'' \<and> k < length cs then Some (k + 2) else None))"

text \<open>\<open>\s+\n\<close>: within the run of whitespace at the head, at least one whitespace
  character and then the last newline that has one before it.\<close>

definition WS_NEWLINE_RE :: "string \<Rightarrow> nat option" where
  "WS_NEWLINE_RE s =
     (let run = takeWhile is_space s;
          back = rev (tl run);
          k = run_len (\<lambda>x. x \<noteq> CHR 0x0A) back
      in if k < length back then Some (length run - k) else None)"

text \<open>\<open>EmailDataset._html2txt\<close>\<close>

definition html2txt :: "string \<Rightarrow> string" where
  "html2txt s =
     (let s1 = re_sub SCRIPT_STYLE_RE '''' s;
          s2 = re_sub BREAK_RE [CHR 0x0A] s1;
          s3 = re_sub ANY_TAG_RE '''' s2
      in strip (re_sub WS_NEWLINE_RE [CHR 0x0A] s3))"

definition is_plain :: "part \<Rightarrow> bool" where
  "is_plain p = (get_content_type p = ''text/plain'')"

definition is_html :: "part \<Rightarrow> bool" where
  "is_html p = (get_content_type p = ''text/html'')"

text \<open>\<open>EmailDataset._get_body\<close>\<close>

definition get_body :: "mail_env \<Rightarrow> part \<Rightarrow> py_error + string" where
  "get_body env msg =
     (if is_multipart msg then
        (case find is_plain (walk msg) of
           Some p \<Rightarrow> txt_of env p
         | None \<Rightarrow>
             (case find is_html (walk msg) of
                Some p \<Rightarrow> map_sum id html2txt (txt_of env p)
              | None \<Rightarrow> Inr ''''))
      else if is_plain msg then txt_of env msg
      else if is_html msg then map_sum id html2txt (txt_of env msg)
      else Inr '''')"

section \<open>Message Parser of the stand-alone builder (\<open>build_spamassassin_dataset\<close>)\<close>

text \<open>\<open>part.get_payload(decode=True).decode(errors="replace")\<close>; \<open>None\<close> when it raises,
  as it does on the \<open>None\<close> payload of a container.\<close>

fun payload_text :: "mail_env \<Rightarrow> part \<Rightarrow> string option" where
  "payload_text env (Leaf h b) = map_option (decode_utf8 env) (payload_bytes b)"
| "payload_text env (Multi h ps) = None"

text \<open>The first loop of \<open>extract_text_from_email\<close>: the list \<open>parts\<close> after it.\<close>

fun plain_parts :: "mail_env \<Rightarrow> part list \<Rightarrow> string list" where
  "plain_parts env [] = []"
| "plain_parts env (p # ps) =
     (if get_content_disposition p = Some ''attachment'' then plain_parts env ps
      else if get_content_type p = ''text/plain'' then
        (case get_content p of
           Some s \<Rightarrow> s # plain_parts env ps
         | None \<Rightarrow>
             (case payload_text env p of
                Some s \<Rightarrow> s # plain_parts env ps
              | None \<Rightarrow> plain_parts env ps))
      else plain_parts env ps)"

text \<open>The fallback loop: the first \<open>text/*\<close> part whose trimmed content is not empty.\<close>

fun any_text :: "part list \<Rightarrow> string" where
  "any_text [] = ''''"
| "any_text (p # ps) =
     (if starts_with ''text/'' (get_content_type p) then
        (case get_content p of
           Some s \<Rightarrow> (if strip s \<noteq> [] then strip s else any_text ps)
         | None \<Rightarrow> any_text ps)
      else any_text ps)"

definition joined_plain :: "mail_env \<Rightarrow> part \<Rightarrow> string" where
  "joined_plain env msg =
     strip (join [CHR 0x0A] (filter (\<lambda>p. p \<noteq> []) (plain_parts env (walk msg))))"

text \<open>The body computed by \<open>extract_text_from_email\<close>, from the parsed message. In the
  single-part branch \<open>str(payload)\<close> of a \<open>None\<close> payload is the text \<open>None\<close>.\<close>

fun extract_body :: "mail_env \<Rightarrow> part \<Rightarrow> string" where
  "extract_body env (Multi h ps) =
     (let body = joined_plain env (Multi h ps)
      in if body = [] then any_text (walk (Multi h ps)) else body)"
| "extract_body env (Leaf h b) =
     (case content b of
        Some s \<Rightarrow> strip s
      | None \<Rightarrow>
          (case payload_bytes b of
             Some bs \<Rightarrow> strip (decode_utf8 env bs)
           | None \<Rightarrow> ''None''))"

text \<open>\<open>extract_text_from_email\<close>: neither the parse nor the read of the subject is guarded
  inside the function, so their failure is the function's (\<open>None\<close>).\<close>

definition extract_text_from_email :: "mail_env \<Rightarrow> string \<Rightarrow> (string \<times> string) option" where
  "extract_text_from_email env raw_bytes =
     (case parsebytes env raw_bytes of
        None \<Rightarrow> None
      | Some msg \<Rightarrow>
          (case get_header env msg ''subject'' of
             Inl e \<Rightarrow> None
           | Inr s \<Rightarrow> Some (s, extract_body env (top_part msg))))"

section \<open>Corpus Loader (\<open>EmailDataset.load\<close>)\<close>

text \<open>
  A directory tree as the loaders read it: a regular file with its name and its bytes
  (\<open>None\<close> when opening or reading it raises), or a directory with its entries in the order
  the operating system lists them.
\<close>

datatype dirent = File string "string option" | Dir string "dirent list"

fun is_file :: "dirent \<Rightarrow> bool" where
  "is_file (File n raw) = True"
| "is_file (Dir n es) = False"

fun entry_name :: "dirent \<Rightarrow> string" where
  "entry_name (File n raw) = n"
| "entry_name (Dir n es) = n"

text \<open>One row of the loader's table; \<open>file_id\<close> is the key \<open>file\<close>. The key \<open>label\<close>
  is only set when the loader was given a label.\<close>

record email_row =
  file_id :: string
  sender :: string
  recipient :: string
  cc :: string
  num_cc :: nat
  subject :: string
  content :: string
  num_hops :: nat
  label :: "string option"

text \<open>The guarded block that opens, reads and parses one file.\<close>

fun read_and_parse :: "mail_env \<Rightarrow> dirent \<Rightarrow> message option" where
  "read_and_parse env (File n None) = None"
| "read_and_parse env (File n (Some raw)) = parsebytes env raw"
| "read_and_parse env (Dir n es) = None"

text \<open>What the loop reads from the headers of one message, in the variables of the
  source: \<open>subj\<close>, \<open>sender\<close>, \<open>to\<close>, \<open>recvd\<close> and \<open>cc_addrs\<close>.\<close>

record header_fields =
  subj :: string
  sender_hdr :: string
  to_hdr :: string
  recvd :: "string list"
  cc_addrs :: "string list"

text \<open>The header reads of the loop, in the order of the source. They stand between the
  two guarded blocks, inside neither: an exception of any of them leaves the loop.\<close>

definition read_headers :: "mail_env \<Rightarrow> message \<Rightarrow> py_error + header_fields" where
  "read_headers env msg =
     (case get_header env msg ''Subject'' of
        Inl e \<Rightarrow> Inl e
      | Inr s \<Rightarrow>
     (case get_header env msg ''From'' of
        Inl e \<Rightarrow> Inl e
      | Inr f \<Rightarrow>
     (case get_header env msg ''To'' of
        Inl e \<Rightarrow> Inl e
      | Inr t \<Rightarrow>
     (case get_all env msg ''Received'' of
        Inl e \<Rightarrow> Inl e
      | Inr r \<Rightarrow>
     (case get_all env msg ''Cc'' of
        Inl e \<Rightarrow> Inl e
      | Inr cc_hdrs \<Rightarrow>
     (case getaddresses env cc_hdrs of
        Inl e \<Rightarrow> Inl e
      | Inr pairs \<Rightarrow>
          Inr \<lparr> subj = s, sender_hdr = f, to_hdr = t, recvd = r,
                cc_addrs = map snd pairs \<rparr>))))))"

definition count_cc :: "string list \<Rightarrow> nat" where
  "count_cc addrs = length (filter (\<lambda>a. a \<noteq> []) addrs)"

definition cc_txt :: "string list \<Rightarrow> string" where
  "cc_txt addrs = join '', '' (filter (\<lambda>a. a \<noteq> []) addrs)"

text \<open>The row built at the end of one iteration of the loop, from what was read from
  the headers and the extracted body.\<close>

definition make_row :: "string option \<Rightarrow> string \<Rightarrow> header_fields \<Rightarrow> string \<Rightarrow> email_row" where
  "make_row lbl name hf body =
     \<lparr> file_id = name,
       sender = sender_hdr hf,
       recipient = to_hdr hf,
       cc = cc_txt (cc_addrs hf),
       num_cc = count_cc (cc_addrs hf),
       subject = subj hf,
       content = body,
       num_hops = length (recvd hf),
       label = lbl \<rparr>"

text \<open>The loop of \<open>load\<close> over the entries of \<open>os.scandir\<close>, with the two variables it
  updates: \<open>rows\<close> and \<open>skipped\<close>. The result is the pair after the last entry, or the
  exception that left the loop.\<close>

fun load_loop ::
  "mail_env \<Rightarrow> string option \<Rightarrow> dirent list \<Rightarrow> email_row list \<times> nat
     \<Rightarrow> py_error + email_row list \<times> nat"
where
  "load_loop env lbl [] acc = Inr acc"
| "load_loop env lbl (e # es) (rows, skipped) =
     (if \<not> is_file e then load_loop env lbl es (rows, skipped)
      else
        (case read_and_parse env e of
           None \<Rightarrow> load_loop env lbl es (rows, skipped + 1)
         | Some msg \<Rightarrow>
             (case read_headers env msg of
                Inl err \<Rightarrow> Inl err
              | Inr hf \<Rightarrow>
                  (case get_body env (top_part msg) of
                     Inl err \<Rightarrow> load_loop env lbl es (rows, skipped + 1)
                   | Inr body \<Rightarrow>
                       (if subj hf = [] \<and> body = [] \<and> sender_hdr hf = []
                        then load_loop env lbl es (rows, skipped + 1)
                        else load_loop env lbl es
                               (rows @ [make_row lbl (entry_name e) hf body], skipped))))))"

text \<open>\<open>EmailDataset(dir_path, label).load()\<close>: the rows of the returned table and the skip
  count it prints, or the exception it ends with. \<open>os.scandir\<close> raises on a path that is
  not a directory.\<close>

fun load :: "mail_env \<Rightarrow> string option \<Rightarrow> dirent \<Rightarrow> py_error + email_row list \<times> nat" where
  "load env lbl (Dir n es) = load_loop env lbl es ([], 0)"
| "load env lbl (File n raw) = Inl OSError"

section \<open>File enumeration of the stand-alone builder (\<open>iter_email_files\<close>)\<close>

text \<open>\<open>folder.rglob("*")\<close>: everything below the folder, at any depth.\<close>

fun rglob :: "dirent \<Rightarrow> dirent list" where
  "rglob (File n raw) = []"
| "rglob (Dir n es) = concat (map (\<lambda>e. e # rglob e) es)"

definition iter_email_files :: "dirent \<Rightarrow> dirent list" where
  "iter_email_files folder = filter is_file (rglob folder)"

section \<open>Tables\<close>

text \<open>
  A pandas table as the Feature Engine and the Dataset Assembler use it: the columns in
  order, each a name and its cells. A cell is a string, an integer or the missing value.
\<close>

datatype cell = Str string | Num int | NaN

type_synonym column = "cell list"

type_synonym DataFrame = "(string \<times> column) list"

definition columns :: "DataFrame \<Rightarrow> string list" where
  "columns df = map fst df"

text \<open>\<open>df[c]\<close>\<close>

definition getitem :: "DataFrame \<Rightarrow> string \<Rightarrow> py_error + column" where
  "getitem df c = (case map_of df c of None \<Rightarrow> Inl (KeyError c) | Some col \<Rightarrow> Inr col)"

text \<open>\<open>df[c] = col\<close>: an existing column is replaced in place, a new one is added last.\<close>

definition setitem :: "DataFrame \<Rightarrow> string \<Rightarrow> column \<Rightarrow> DataFrame" where
  "setitem df c col =
     (if c \<in> set (columns df)
      then map (\<lambda>kv. if fst kv = c then (c, col) else kv) df
      else df @ [(c, col)])"

text \<open>\<open>.fillna("")\<close>\<close>

definition fillna :: "column \<Rightarrow> column" where
  "fillna col = map (\<lambda>x. case x of NaN \<Rightarrow> Str '''' | _ \<Rightarrow> x) col"

fun is_Str :: "cell \<Rightarrow> bool" where
  "is_Str (Str s) = True"
| "is_Str x = False"

text \<open>The \<open>.str\<close> accessor: pandas refuses it on a column that holds values but no
  string.\<close>

definition str_accessor :: "column \<Rightarrow> py_error + column" where
  "str_accessor col = (if col = [] \<or> list_ex is_Str col then Inr col else Inl AttributeError)"

text \<open>\<open>.str.len()\<close>: the length of a string, the missing value for anything else.\<close>

definition str_len :: "column \<Rightarrow> column" where
  "str_len col = map (\<lambda>x. case x of Str s \<Rightarrow> Num (int (length s)) | _ \<Rightarrow> NaN) col"

function show_nat :: "nat \<Rightarrow> string" where
  "show_nat n =
     (if n < 10 then [char_of (48 + n)] else show_nat (n div 10) @ [char_of (48 + n mod 10)])"
  by pat_completeness auto
termination
  by (relation "measure id") auto

definition show_int :: "int \<Rightarrow> string" where
  "show_int i = (if i < 0 then CHR ''-'' # show_nat (nat (- i)) else show_nat (nat i))"

text \<open>\<open>.astype(str)\<close>, as the list of the strings.\<close>

definition astype_str :: "column \<Rightarrow> string list" where
  "astype_str col = map (\<lambda>x. case x of Str s \<Rightarrow> s | Num i \<Rightarrow> show_int i | NaN \<Rightarrow> ''nan'') col"

text \<open>The function applied to each cell of \<open>cc\<close>: \<open>x.split(", ")\<close> exists on strings
  only.\<close>

definition rederive_num_cc :: "string \<Rightarrow> nat" where
  "rederive_num_cc x = length (filter (\<lambda>a. strip a \<noteq> []) (split_str '', '' x))"

fun apply_num_cc :: "column \<Rightarrow> py_error + column" where
  "apply_num_cc [] = Inr []"
| "apply_num_cc (Str s # xs) =
     (case apply_num_cc xs of
        Inl e \<Rightarrow> Inl e
      | Inr ys \<Rightarrow> Inr (Num (int (rederive_num_cc s)) # ys))"
| "apply_num_cc (x # xs) = Inl AttributeError"

section \<open>Feature Engine (\<open>EmailFeatureClass\<close>)\<close>

text \<open>
  Tables are objects: a variable holds a reference, and \<open>df[c] = col\<close> changes the object
  in place. The store is the list of all tables allocated so far, a reference is an index
  into it, and \<open>df.copy()\<close> allocates behind the last one.
\<close>

type_synonym heap = "DataFrame list"

definition copy_df :: "nat \<Rightarrow> heap \<Rightarrow> nat \<times> heap" where
  "copy_df a h = (length h, h @ [h ! a])"

record EmailFeatureClass =
  subject_col :: string
  content_col :: string
  cols :: "string list"

definition default_features :: EmailFeatureClass where
  "default_features =
     \<lparr> subject_col = ''subject'', content_col = ''content'',
       cols = [''num_cc'', ''num_hops'', ''subject_len'', ''content_len'', ''has_link''] \<rparr>"

text \<open>A statement either completes (\<open>None\<close>) or raises; in both cases the store it leaves
  is part of the result. \<open>then_do\<close> runs the next statement unless one has raised.\<close>

type_synonym outcome = "py_error option \<times> heap"

definition then_do :: "outcome \<Rightarrow> (heap \<Rightarrow> outcome) \<Rightarrow> outcome" where
  "then_do r f = (case r of (None, h) \<Rightarrow> f h | (Some e, h) \<Rightarrow> (Some e, h))"

text \<open>\<open>if name not in df.columns and src in df.columns:
  df[name] = df[src].fillna("").str.len()\<close>\<close>

definition add_len :: "string \<Rightarrow> string \<Rightarrow> nat \<Rightarrow> heap \<Rightarrow> outcome" where
  "add_len name src d h =
     (let df = h ! d
      in if name \<notin> set (columns df) \<and> src \<in> set (columns df) then
           (case getitem df src of
              Inl e \<Rightarrow> (Some e, h)
            | Inr col \<Rightarrow>
                (case str_accessor (fillna col) of
                   Inl e \<Rightarrow> (Some e, h)
                 | Inr c \<Rightarrow> (None, h[d := setitem df name (str_len c)])))
         else (None, h))"

text \<open>The \<open>has_link\<close> statement: both source columns are read without a test.\<close>

definition add_has_link :: "EmailFeatureClass \<Rightarrow> nat \<Rightarrow> heap \<Rightarrow> outcome" where
  "add_has_link self d h =
     (let df = h ! d
      in if ''has_link'' \<notin> set (columns df) then
           (case getitem df (subject_col self) of
              Inl e \<Rightarrow> (Some e, h)
            | Inr scol \<Rightarrow>
                (case getitem df (content_col self) of
                   Inl e \<Rightarrow> (Some e, h)
                 | Inr ccol \<Rightarrow>
                     (let subj = astype_str (fillna scol);
                          cont = astype_str (fillna ccol);
                          both = map (\<lambda>sc. fst sc @ '' '' @ snd sc) (zip subj cont);
                          flags = map (\<lambda>s. Num (if re_search URL_RE s then 1 else 0)) both
                      in (None, h[d := setitem df ''has_link'' flags]))))
         else (None, h))"

definition add_num_cc :: "nat \<Rightarrow> heap \<Rightarrow> outcome" where
  "add_num_cc d h =
     (let df = h ! d
      in if ''num_cc'' \<notin> set (columns df) \<and> ''cc'' \<in> set (columns df) then
           (case getitem df ''cc'' of
              Inl e \<Rightarrow> (Some e, h)
            | Inr col \<Rightarrow>
                (case apply_num_cc (fillna col) of
                   Inl e \<Rightarrow> (Some e, h)
                 | Inr c \<Rightarrow> (None, h[d := setitem df ''num_cc'' c])))
         else (None, h))"

definition missing_of :: "string list \<Rightarrow> DataFrame \<Rightarrow> string list" where
  "missing_of names df = filter (\<lambda>c. c \<notin> set (columns df)) names"

definition check_cols :: "EmailFeatureClass \<Rightarrow> nat \<Rightarrow> heap \<Rightarrow> outcome" where
  "check_cols self d h =
     (let missing = missing_of (cols self) (h ! d)
      in if missing \<noteq> [] then (Some (ValueError ''Missing expected columns: '' missing), h)
         else (None, h))"

text \<open>\<open>EmailFeatureClass.__call__\<close>, called with the reference \<open>a\<close> of the caller's table:
  the result or the error, and the store afterwards.\<close>

definition feature_call :: "EmailFeatureClass \<Rightarrow> nat \<Rightarrow> heap \<Rightarrow> (py_error + nat) \<times> heap" where
  "feature_call self a h =
     (let (d, h0) = copy_df a h;
          r1 = add_len ''subject_len'' (subject_col self) d h0;
          r2 = then_do r1 (add_len ''content_len'' (content_col self) d);
          r3 = then_do r2 (add_has_link self d);
          r4 = then_do r3 (add_num_cc d);
          r5 = then_do r4 (check_cols self d)
      in case r5 of
           (Some e, h') \<Rightarrow> (Inl e, h')
         | (None, h') \<Rightarrow> (let (r, h'') = copy_df d h' in (Inr r, h'')))"

section \<open>Merging the labeled loads (\<open>load_data\<close>)\<close>

text \<open>\<open>pd.DataFrame(rows)\<close>: a column for each key of the rows, in the order of the keys;
  an empty list of rows gives a table with no column at all.\<close>

definition to_frame :: "email_row list \<Rightarrow> DataFrame" where
  "to_frame rows =
     (if rows = [] then []
      else
        [ (''file'', map (\<lambda>r. Str (file_id r)) rows),
          (''sender'', map (\<lambda>r. Str (sender r)) rows),
          (''recipient'', map (\<lambda>r. Str (recipient r)) rows),
          (''cc'', map (\<lambda>r. Str (cc r)) rows),
          (''num_cc'', map (\<lambda>r. Num (int (num_cc r))) rows),
          (''subject'', map (\<lambda>r. Str (subject r)) rows),
          (''content'', map (\<lambda>r. Str (content r)) rows),
          (''num_hops'', map (\<lambda>r. Num (int (num_hops r))) rows) ]
        @ (if list_ex (\<lambda>r. label r \<noteq> None) rows
           then [(''label'', map (\<lambda>r. case label r of None \<Rightarrow> NaN | Some l \<Rightarrow> Str l) rows)]
           else []))"

text \<open>\<open>pd.concat([a, b], ignore_index=True)\<close> for the two tables \<open>load_data\<close> passes: each
  has either no column or the columns of \<open>to_frame\<close>.\<close>

definition concat_frames :: "DataFrame \<Rightarrow> DataFrame \<Rightarrow> DataFrame" where
  "concat_frames a b =
     (if a = [] then b
      else if b = [] then a
      else map (\<lambda>kv. (fst kv, snd kv @ (case map_of b (fst kv) of None \<Rightarrow> [] | Some col \<Rightarrow> col))) a)"

definition load_data :: "mail_env \<Rightarrow> dirent \<Rightarrow> dirent \<Rightarrow> py_error + DataFrame" where
  "load_data env spam_dir ham_dir =
     (case load env (Some ''spam'') spam_dir of
        Inl e \<Rightarrow> Inl e
      | Inr spam \<Rightarrow>
          (case load env (Some ''ham'') ham_dir of
             Inl e \<Rightarrow> Inl e
           | Inr ham \<Rightarrow> Inr (concat_frames (to_frame (fst spam)) (to_frame (fst ham)))))"

section \<open>Dataset Assembler (\<open>build_processed.main\<close>)\<close>

text \<open>
  The part of the file system the assembler writes to: the directories that exist and the
  files with their content. A path is the list of its components. The content of a
  written file is the table that \<open>to_csv\<close> was given.
\<close>

type_synonym path = "string list"

record filesys =
  dirs :: "path list"
  files :: "(path \<times> DataFrame) list"

definition keep :: "string list" where
  "keep = [''sender'', ''recipient'', ''num_cc'', ''subject'', ''content'',
           ''subject_len'', ''content_len'', ''has_link'', ''num_hops'', ''label'']"

text \<open>\<open>p.mkdir(parents=True, exist_ok=True)\<close>: every missing directory on the way is
  created; a file in the way is an error.\<close>

definition mkdir_parents :: "path \<Rightarrow> filesys \<Rightarrow> py_error + filesys" where
  "mkdir_parents p fs =
     (let ancestors = map (\<lambda>n. take n p) [1 ..< Suc (length p)]
      in if list_ex (\<lambda>q. q \<in> set (map fst (files fs))) ancestors then Inl OSError
         else Inr (fs\<lparr>dirs := dirs fs @ filter (\<lambda>q. q \<notin> set (dirs fs)) ancestors\<rparr>))"

text \<open>\<open>df.to_csv(out_path, index=False)\<close>: the file is created or overwritten.\<close>

definition to_csv :: "DataFrame \<Rightarrow> path \<Rightarrow> filesys \<Rightarrow> py_error + filesys" where
  "to_csv df out fs =
     (if out \<in> set (dirs fs) then Inl OSError
      else Inr (fs\<lparr>files := (out, df) # filter (\<lambda>kv. fst kv \<noteq> out) (files fs)\<rparr>))"

text \<open>\<open>features_df[keep]\<close>, once all of \<open>keep\<close> is known to be there.\<close>

definition select_cols :: "string list \<Rightarrow> DataFrame \<Rightarrow> DataFrame" where
  "select_cols names df =
     concat (map (\<lambda>c. case map_of df c of None \<Rightarrow> [] | Some col \<Rightarrow> [(c, col)]) names)"

text \<open>\<open>raw_df[c] = raw_df[c].fillna("").astype(str)\<close>\<close>

definition coerce_str :: "string \<Rightarrow> DataFrame \<Rightarrow> py_error + DataFrame" where
  "coerce_str c df =
     (case getitem df c of
        Inl e \<Rightarrow> Inl e
      | Inr col \<Rightarrow> Inr (setitem df c (map Str (astype_str (fillna col)))))"

text \<open>The assembler proper: from the check of \<open>keep\<close> to the write, on the table the
  Feature Engine returned. The result is the error, if any, and the file system
  afterwards.\<close>

definition assemble :: "DataFrame \<Rightarrow> path \<Rightarrow> filesys \<Rightarrow> py_error option \<times> filesys" where
  "assemble features_df out fs =
     (let missing = missing_of keep features_df
      in if missing \<noteq> []
         then (Some (ValueError ''load_data() did not return expected columns: missing='' missing), fs)
         else
           (case mkdir_parents (butlast out) fs of
              Inl e \<Rightarrow> (Some e, fs)
            | Inr fs1 \<Rightarrow>
                (case coerce_str ''subject'' (select_cols keep features_df) of
                   Inl e \<Rightarrow> (Some e, fs1)
                 | Inr raw1 \<Rightarrow>
                     (case coerce_str ''content'' raw1 of
                        Inl e \<Rightarrow> (Some e, fs1)
                      | Inr raw2 \<Rightarrow>
                          (case to_csv raw2 out fs1 of
                             Inl e \<Rightarrow> (Some e, fs1)
                           | Inr fs2 \<Rightarrow> (None, fs2))))))"

text \<open>\<open>main\<close> from the call of the Feature Engine on: the loaded table is the only one
  in the store.\<close>

definition featurize_and_assemble :: "DataFrame \<Rightarrow> path \<Rightarrow> filesys \<Rightarrow> py_error option \<times> filesys" where
  "featurize_and_assemble df out fs =
     (case feature_call default_features 0 [df] of
        (Inl e, h) \<Rightarrow> (Some e, fs)
      | (Inr r, h) \<Rightarrow> assemble (h ! r) out fs)"

text \<open>\<open>main\<close>: \<open>spam_dir\<close> and \<open>ham_dir\<close> are what is found at \<open>raw_root/"spam"\<close> and
  \<open>raw_root/"easy_ham"\<close>, if anything.\<close>

definition main :: "mail_env \<Rightarrow> dirent option \<Rightarrow> dirent option \<Rightarrow> path \<Rightarrow> filesys \<Rightarrow> py_error option \<times> filesys" where
  "main env spam_dir ham_dir out fs =
     (case spam_dir of
        None \<Rightarrow> (Some (FileNotFoundError ''Missing spam dir''), fs)
      | Some spam \<Rightarrow>
          (case ham_dir of
             None \<Rightarrow> (Some (FileNotFoundError ''Missing easy_ham dir''), fs)
           | Some ham \<Rightarrow>
               (case load_data env spam ham of
                  Inl e \<Rightarrow> (Some e, fs)
                | Inr df \<Rightarrow> featurize_and_assemble df out fs)))"

section \<open>Concrete inputs\<close>

text \<open>
  Values on which the definitions above are run. \<open>leaf_part\<close> is a single part whose
  payload is plain ASCII, so that every way of reading it gives the same text;
  \<open>container\<close> is a multipart part. \<open>ascii_env\<close> is the standard library restricted
  to well-formed ASCII data: decoding and encoding do not change the text, a file parses
  to a single-part \<open>text/plain\<close> message whose subject and body are its bytes (an empty
  file does not parse), a header reads as it stands, and every address header holds one
  bare address. \<open>malformed_env\<close> is the same library on one more file, the message
  \<open>From: <\<close> with the body \<open>x\<close>: the parser accepts it, and reading an address header
  whose value is \<open><\<close> raises \<open>IndexError\<close>.
\<close>

definition leaf_part :: "string \<Rightarrow> string option \<Rightarrow> string \<Rightarrow> part" where
  "leaf_part ct d s =
     Leaf \<lparr> ctype = ct, disp = d, charset = None \<rparr>
          \<lparr> payload_bytes = Some s, payload_str = s, content = Some s \<rparr>"

definition container :: "string \<Rightarrow> part list \<Rightarrow> part" where
  "container ct ps = Multi \<lparr> ctype = ct, disp = None, charset = None \<rparr> ps"

definition ascii_env :: mail_env where
  "ascii_env =
     \<lparr> decode = (\<lambda>cs bs. Some bs), decode_utf8 = (\<lambda>bs. bs), encode_utf8 = (\<lambda>s. s),
       parsebytes = (\<lambda>raw. if raw = [] then None
                            else Some \<lparr> headers = [(''Subject'', raw)],
                                        top_part = leaf_part ''text/plain'' None raw \<rparr>),
       header_fetch_parse = (\<lambda>name v. Inr v),
       getaddresses = (\<lambda>hs. Inr (map (\<lambda>h. ('''', h)) hs)) \<rparr>"

definition malformed_from :: string where
  "malformed_from = ''From: <'' @ [CHR 0x0A, CHR 0x0A] @ ''x''"

definition malformed_env :: mail_env where
  "malformed_env =
     ascii_env
       \<lparr> parsebytes :=
           (\<lambda>raw. if raw = malformed_from
                   then Some \<lparr> headers = [(''From'', ''<'')],
                               top_part = leaf_part ''text/plain'' None ''x'' \<rparr>
                   else parsebytes ascii_env raw),
         header_fetch_parse :=
           (\<lambda>name v. if v = ''<'' \<and> lower name \<in> set [''from'', ''to'', ''cc'']
                      then Inl IndexError else Inr v) \<rparr>"

section \<open>Auxiliary notions for the properties\<close>

text \<open>\<open>sub in s\<close>: the text \<open>sub\<close> occurs somewhere in \<open>s\<close>.\<close>

fun contains_str :: "string \<Rightarrow> string \<Rightarrow> bool" where
  "contains_str sub [] = (sub = [])"
| "contains_str sub (c # cs) = (starts_with sub (c # cs) \<or> contains_str sub cs)"

text \<open>What a statement on the table at reference \<open>d\<close> may do to the store: no table is
  allocated, no other table changes, and the table at \<open>d\<close> gets columns from \<open>A\<close> at
  most.\<close>

abbreviation frame :: "nat \<Rightarrow> string set \<Rightarrow> heap \<Rightarrow> heap \<Rightarrow> bool" where
  "frame d A h h' \<equiv>
     length h' = length h \<and> (\<forall>i. i \<noteq> d \<longrightarrow> h' ! i = h ! i)
     \<and> set (columns (h' ! d)) \<subseteq> set (columns (h ! d)) \<union> A"

section \<open>Properties of the Text Normalizer\<close>

lemma is_space_blank: "is_space (CHR '' '')"
  by (simp add: is_space_def)

lemma rstrip_append:
  "rstrip (a @ b) = (if rstrip b = [] then rstrip a else a @ rstrip b)"
  by (auto simp: rstrip_def dropWhile_append dropWhile_eq_Nil_conv)

lemma rstrip_all_ns: "\<forall>c\<in>set w. \<not> is_space c \<Longrightarrow> rstrip w = w"
  by (cases w rule: rev_cases) (auto simp: rstrip_def)

lemma lstrip_sub_ws: "lstrip (sub_ws s) = sub_ws (lstrip s)"
  unfolding lstrip_def
  by (induction s rule: sub_ws.induct) (auto simp: is_space_blank)

lemma sub_ws_ns_append:
  "\<forall>c\<in>set w. \<not> is_space c \<Longrightarrow> sub_ws (w @ r) = w @ sub_ws r"
  by (induction w) auto

lemma sub_ws_lead:
  "r = [] \<or> is_space (hd r) \<Longrightarrow>
   sub_ws r = (if r = [] then [] else CHR '' '' # sub_ws (lstrip r))"
  by (cases r) (auto simp: lstrip_def)

lemma dropWhile_ns_lead:
  "dropWhile (\<lambda>x. \<not> is_space x) cs = [] \<or> is_space (hd (dropWhile (\<lambda>x. \<not> is_space x) cs))"
  using hd_dropWhile [of "\<lambda>x. \<not> is_space x" cs] by auto

lemma join_Cons: "ts \<noteq> [] \<Longrightarrow> join sep (x # ts) = x @ sep @ join sep ts"
  by (cases ts) auto

lemma ws_words_ok: "tokens_ok (ws_words s)"
proof (induction s rule: ws_words.induct)
  case 1
  show ?case by (simp add: tokens_ok_def)
next
  case (2 c cs)
  show ?case
  proof (cases "is_space c")
    case True
    with 2 show ?thesis by simp
  next
    case False
    have "list_all (\<lambda>c. \<not> is_space c) (takeWhile (\<lambda>x. \<not> is_space x) cs)"
      by (auto simp: list_all_iff dest: set_takeWhileD)
    with False 2(2) show ?thesis by (simp add: tokens_ok_def)
  qed
qed

lemma join_nil_iff: "tokens_ok ts \<Longrightarrow> join sep ts = [] \<longleftrightarrow> ts = []"
  by (induction sep ts rule: join.induct) (auto simp: tokens_ok_def)

lemma rstrip_sub_ws_lstrip: "rstrip (sub_ws (lstrip s)) = join '' '' (ws_words s)"
proof (induction s rule: ws_words.induct)
  case 1
  show ?case by (simp add: lstrip_def rstrip_def)
next
  case (2 c cs)
  show ?case
  proof (cases "is_space c")
    case True
    with 2 show ?thesis by (simp add: lstrip_def)
  next
    case False
    define w where "w = takeWhile (\<lambda>x. \<not> is_space x) cs"
    define r where "r = dropWhile (\<lambda>x. \<not> is_space x) cs"
    have cs: "cs = w @ r" by (simp add: w_def r_def)
    have wns: "\<forall>x\<in>set (c # w). \<not> is_space x"
      using False by (auto simp: w_def dest: set_takeWhileD)
    have lead: "r = [] \<or> is_space (hd r)"
      unfolding r_def by (rule dropWhile_ns_lead)
    have IH: "rstrip (sub_ws (lstrip r)) = join '' '' (ws_words r)"
      using 2(2) [OF False] by (simp add: r_def)
    have sub: "sub_ws (lstrip (c # cs)) = (c # w) @ sub_ws r"
      using False wns sub_ws_ns_append [of "c # w" r] by (simp add: lstrip_def cs)
    have words: "ws_words (c # cs) = (c # w) # ws_words r"
      using False by (simp add: w_def r_def)
    show ?thesis
    proof (cases "r = []")
      case True
      then show ?thesis
        using sub words rstrip_all_ns [OF wns] by simp
    next
      case rne: False
      define t where "t = sub_ws (lstrip r)"
      have subr: "sub_ws r = CHR '' '' # t"
        using sub_ws_lead [OF lead] rne by (simp add: t_def)
      show ?thesis
      proof (cases "ws_words r = []")
        case True
        then have "rstrip t = []" using IH by (simp add: t_def)
        then have "rstrip ([CHR '' ''] @ t) = []"
          by (subst rstrip_append) (simp add: rstrip_def is_space_blank)
        then have "rstrip ((c # w) @ CHR '' '' # t) = c # w"
          using rstrip_append [of "c # w" "CHR '' '' # t"] rstrip_all_ns [OF wns] by simp
        then show ?thesis using sub subr words True by simp
      next
        case wne: False
        then have jn: "join '' '' (ws_words r) \<noteq> []"
          using join_nil_iff [OF ws_words_ok, of "'' ''" r] by simp
        then have tn: "rstrip t \<noteq> []" using IH by (simp add: t_def)
        then have "rstrip ([CHR '' ''] @ t) = CHR '' '' # rstrip t"
          by (subst rstrip_append) simp
        then have "rstrip ((c # w) @ CHR '' '' # t) = (c # w) @ CHR '' '' # rstrip t"
          using rstrip_append [of "c # w" "CHR '' '' # t"] by simp
        then show ?thesis
          using sub subr words join_Cons [OF wne, of "'' ''" "c # w"] IH
          by (simp add: t_def)
      qed
    qed
  qed
qed

lemma collapse_is_spec: "collapse_whitespace_step s = spec_collapse s"
  by (simp add: collapse_whitespace_step_def strip_def lstrip_sub_ws rstrip_sub_ws_lstrip
      spec_collapse_def)

lemma ws_words_token:
  assumes "\<not> is_space c" "\<forall>x\<in>set w. \<not> is_space x" "r = [] \<or> is_space (hd r)"
  shows "ws_words ((c # w) @ r) = (c # w) # ws_words r"
proof -
  have "takeWhile (\<lambda>x. \<not> is_space x) (w @ r) = w"
    using assms by (cases r) (auto simp: takeWhile_append2)
  moreover have "dropWhile (\<lambda>x. \<not> is_space x) (w @ r) = r"
    using assms by (cases r) (auto simp: dropWhile_append2)
  ultimately show ?thesis using assms(1) by simp
qed

lemma ws_words_join: "tokens_ok ts \<Longrightarrow> ws_words (join '' '' ts) = ts"
proof (induction "'' ''" ts rule: join.induct)
  case 1
  show ?case by simp
next
  case (2 x)
  then obtain c w where x: "x = c # w" by (cases x) (auto simp: tokens_ok_def)
  with 2 show ?case
    using ws_words_token [of c w "[]"] by (auto simp: tokens_ok_def list_all_iff)
next
  case (3 x y ys)
  then obtain c w where x: "x = c # w" by (cases x) (auto simp: tokens_ok_def)
  have ok: "tokens_ok (y # ys)" using 3(2) by (simp add: tokens_ok_def)
  have "ws_words ((c # w) @ (CHR '' '' # join '' '' (y # ys)))
        = (c # w) # ws_words (CHR '' '' # join '' '' (y # ys))"
    using 3(2) x by (intro ws_words_token) (auto simp: tokens_ok_def list_all_iff is_space_blank)
  then show ?case using 3(1) [OF ok] x by (simp add: is_space_blank)
qed

text \<open>
  Claim C8. When \<open>enable\<close> is false the Text Normalizer returns its input unchanged,
  whatever the other options and whatever the text: no unescaping, stripping, case
  folding or whitespace change is applied.
\<close>

theorem normalizer_disabled_is_identity:
  "\<not> enable cfg \<Longrightarrow> preprocess env cfg text = Inr text"
  by (simp add: preprocess_def)

theorem normalizer_disabled_is_identity_witness:
  "preprocess
     \<lparr> html_unescape = (\<lambda>s. ''x''), sub_EMAIL_RE = (\<lambda>r s. r), spacy = SpacyMissing \<rparr>
     \<lparr> enable = False, language = ''en'', remove_html = True, remove_urls = True,
       remove_emails = True, remove_user_handles = True, remove_hashtags = True,
       lowercase = True, remove_digits = True, remove_punctuation = True,
       collapse_whitespace = True, lemmatize = True \<rparr>
     ''  &amp; <b>Hi</b>  @You 42!  ''
   = Inr ''  &amp; <b>Hi</b>  @You 42!  ''"
  by (rule normalizer_disabled_is_identity) simp

text \<open>
  Claim C9. The whitespace step replaces every maximal run of whitespace by one space
  and removes leading and trailing whitespace: its result is the words of the text with
  one space between neighbours. Applied to its own output it returns that output.
\<close>

theorem collapse_whitespace_runs_and_idempotent:
  "collapse_whitespace_step s = spec_collapse s
   \<and> collapse_whitespace_step (collapse_whitespace_step s) = collapse_whitespace_step s"
  by (simp add: collapse_is_spec spec_collapse_def ws_words_join [OF ws_words_ok])

theorem collapse_whitespace_runs_and_idempotent_witness:
  "collapse_whitespace_step [CHR 0x09, CHR '' '', CHR ''a'', CHR 0x0A, CHR 0xA0, CHR ''b'', CHR '' '']
     = spec_collapse [CHR 0x09, CHR '' '', CHR ''a'', CHR 0x0A, CHR 0xA0, CHR ''b'', CHR '' '']
   \<and> collapse_whitespace_step
       (collapse_whitespace_step [CHR 0x09, CHR '' '', CHR ''a'', CHR 0x0A, CHR 0xA0, CHR ''b'', CHR '' ''])
     = collapse_whitespace_step [CHR 0x09, CHR '' '', CHR ''a'', CHR 0x0A, CHR 0xA0, CHR ''b'', CHR '' '']
   \<and> spec_collapse [CHR 0x09, CHR '' '', CHR ''a'', CHR 0x0A, CHR 0xA0, CHR ''b'', CHR '' ''] = ''a b''"
proof -
  have "spec_collapse [CHR 0x09, CHR '' '', CHR ''a'', CHR 0x0A, CHR 0xA0, CHR ''b'', CHR '' '']
        = ''a b''"
    by (simp add: spec_collapse_def is_space_def)
  with collapse_whitespace_runs_and_idempotent
         [of "[CHR 0x09, CHR '' '', CHR ''a'', CHR 0x0A, CHR 0xA0, CHR ''b'', CHR '' '']"]
  show ?thesis by blast
qed

section \<open>Properties of the Corpus Loader\<close>

lemma load_loop_count:
  "load_loop env lbl es (rows, k) = Inr (rows', k') \<Longrightarrow>
   length rows' + k' = length rows + k + length (filter is_file es)"
proof (induction es arbitrary: rows k)
  case Nil
  then show ?case by simp
next
  case (Cons e es)
  then show ?case
    by (auto split: if_splits option.splits sum.splits dest!: Cons.IH)
qed

lemma load_loop_skips_dirs:
  "load_loop env lbl es acc = load_loop env lbl (filter is_file es) acc"
proof (induction es arbitrary: acc)
  case Nil
  show ?case by simp
next
  case (Cons e es)
  obtain rows k where acc: "acc = (rows, k)" by (cases acc)
  show ?case unfolding acc using Cons.IH
    by (auto split: option.splits sum.splits)
qed

lemma load_loop_append:
  "load_loop env lbl (pre @ rest) acc =
     (case load_loop env lbl pre acc of
        Inl e \<Rightarrow> Inl e
      | Inr acc' \<Rightarrow> load_loop env lbl rest acc')"
proof (induction pre arbitrary: acc)
  case Nil
  show ?case by simp
next
  case (Cons e pre)
  obtain rows k where acc: "acc = (rows, k)" by (cases acc)
  show ?case unfolding acc using Cons.IH
    by (auto split: option.splits sum.splits)
qed

lemma load_loop_header_error:
  "is_file e \<Longrightarrow> read_and_parse env e = Some msg \<Longrightarrow> read_headers env msg = Inl err \<Longrightarrow>
   load_loop env lbl (e # es) acc = Inl err"
  by (cases acc) simp

text \<open>
  Claim C2, which the loader does not meet. The header reads of the loop stand outside
  both guarded blocks. A regular file that parses but has a header whose read raises
  gives neither a row nor a skip: the exception leaves \<open>load\<close>, and with such a file
  anywhere among the entries \<open>load\<close> returns nothing at all. Only when \<open>load\<close> does
  return is the number of rows plus the skip count the number of regular files scanned.
\<close>

theorem load_aborts_on_header_error:
  assumes "is_file e" and "read_and_parse env e = Some msg" and "read_headers env msg = Inl err"
  shows "load env lbl (Dir n (e # es)) = Inl err
         \<and> (\<exists>err'. load env lbl (Dir n (pre @ e # es)) = Inl err')
         \<and> (\<forall>rows skipped. load env lbl (Dir n es') = Inr (rows, skipped)
               \<longrightarrow> length rows + skipped = length (filter is_file es'))"
proof (intro conjI allI impI)
  show "load env lbl (Dir n (e # es)) = Inl err"
    by (simp only: load.simps load_loop_header_error [OF assms])
next
  show "\<exists>err'. load env lbl (Dir n (pre @ e # es)) = Inl err'"
  proof (cases "load_loop env lbl pre ([], 0)")
    case (Inl e')
    then show ?thesis by (simp add: load_loop_append del: load_loop.simps)
  next
    case (Inr acc')
    then show ?thesis
      by (simp add: load_loop_append load_loop_header_error [OF assms] del: load_loop.simps)
  qed
next
  fix rows skipped
  assume "load env lbl (Dir n es') = Inr (rows, skipped)"
  then have "load_loop env lbl es' ([], 0) = Inr (rows, skipped)" by simp
  from load_loop_count [OF this]
  show "length rows + skipped = length (filter is_file es')" by simp
qed

lemma malformed_from_parses:
  "read_and_parse malformed_env (File ''m1'' (Some malformed_from))
   = Some \<lparr> headers = [(''From'', ''<'')], top_part = leaf_part ''text/plain'' None ''x'' \<rparr>"
  by (simp add: malformed_env_def)

lemma malformed_from_raises:
  "read_headers malformed_env
     \<lparr> headers = [(''From'', ''<'')], top_part = leaf_part ''text/plain'' None ''x'' \<rparr>
   = Inl IndexError"
  by code_simp

theorem load_aborts_on_header_error_witness:
  "load malformed_env (Some ''spam'')
     (Dir ''spam'' [File ''m1'' (Some malformed_from), File ''m2'' (Some ''hello'')])
     = Inl IndexError
   \<and> (\<exists>err'. load malformed_env (Some ''spam'')
         (Dir ''spam'' [File ''m0'' (Some ''hello''), File ''m1'' (Some malformed_from),
                        File ''m2'' (Some ''hello'')])
         = Inl err')"
proof -
  have f: "is_file (File ''m1'' (Some malformed_from))" by simp
  from load_aborts_on_header_error
         [OF f malformed_from_parses malformed_from_raises,
          of "Some ''spam''" "''spam''" "[File ''m2'' (Some ''hello'')]"
             "[File ''m0'' (Some ''hello'')]"]
  show ?thesis by (simp del: load.simps load_loop.simps)
qed

text \<open>
  Claim C4, which the loader of the pipeline does not meet. \<open>EmailDataset.load\<close> scans
  the entries of the directory itself and passes over every entry that is not a regular
  file: a sub-directory, with all it holds, changes nothing in the result. A file in a
  sub-directory gives neither a row nor a skip, while \<open>iter_email_files\<close> of the
  stand-alone builder does enumerate it.
\<close>

theorem load_does_not_enter_subdirectories:
  "load env lbl (Dir n (es @ Dir d sub # es')) = load env lbl (Dir n (es @ es'))
   \<and> load ascii_env (Some ''spam'') (Dir ''spam'' [Dir ''sub'' [File ''m1'' (Some ''hello'')]])
       = Inr ([], 0)
   \<and> iter_email_files (Dir ''spam'' [Dir ''sub'' [File ''m1'' (Some ''hello'')]])
       = [File ''m1'' (Some ''hello'')]"
proof (intro conjI)
  have "load_loop env lbl (es @ Dir d sub # es') ([], 0) = load_loop env lbl (es @ es') ([], 0)"
    using load_loop_skips_dirs [of env lbl "es @ Dir d sub # es'" "([], 0)"]
          load_loop_skips_dirs [of env lbl "es @ es'" "([], 0)"]
    by simp
  then show "load env lbl (Dir n (es @ Dir d sub # es')) = load env lbl (Dir n (es @ es'))"
    by simp
next
  show "load ascii_env (Some ''spam'') (Dir ''spam'' [Dir ''sub'' [File ''m1'' (Some ''hello'')]])
          = Inr ([], 0)"
    by simp
next
  show "iter_email_files (Dir ''spam'' [Dir ''sub'' [File ''m1'' (Some ''hello'')]])
          = [File ''m1'' (Some ''hello'')]"
    by (simp add: iter_email_files_def)
qed

section \<open>Properties of the Message Parser\<close>

lemma find_Some_first:
  "\<exists>p\<in>set xs. P p \<Longrightarrow> \<exists>q. find P xs = Some q \<and> P q \<and> q \<in> set xs"
  by (induction xs) auto

lemma get_body_plain:
  assumes "is_multipart msg" "\<exists>p\<in>set (walk msg). is_plain p"
  shows "\<exists>q. find is_plain (walk msg) = Some q \<and> is_plain q \<and> \<not> is_html q \<and> q \<in> set (walk msg)
            \<and> get_body env msg = txt_of env q"
proof -
  from find_Some_first [OF assms(2)] obtain q where
    q: "find is_plain (walk msg) = Some q" "is_plain q" "q \<in> set (walk msg)" by blast
  then show ?thesis using assms(1) by (auto simp: get_body_def is_plain_def is_html_def)
qed

lemma extract_body_plain:
  "is_multipart msg \<Longrightarrow> joined_plain env msg \<noteq> [] \<Longrightarrow>
   extract_body env msg = joined_plain env msg"
  by (cases msg) (auto simp: Let_def)

lemma get_body_two_plain:
  "get_body ascii_env
     (container ''multipart/mixed''
        [leaf_part ''text/plain'' None ''first'', leaf_part ''text/plain'' None ''second''])
   = Inr ''first''"
  by (simp add: get_body_def container_def leaf_part_def is_plain_def get_content_type_def
      txt_of_def ascii_env_def strip_def lstrip_def rstrip_def strip_char_def lower_def)

lemma extract_body_two_plain:
  "extract_body ascii_env
     (container ''multipart/mixed''
        [leaf_part ''text/plain'' None ''first'', leaf_part ''text/plain'' None ''second''])
   = ''first'' @ [CHR 0x0A] @ ''second''"
  by (simp add: container_def leaf_part_def joined_plain_def get_content_type_def
      get_content_disposition_def strip_def lstrip_def rstrip_def is_space_def)

lemma get_body_attachment:
  "get_body ascii_env
     (container ''multipart/mixed''
        [leaf_part ''text/plain'' (Some ''attachment'') ''notes'',
         leaf_part ''text/plain'' None ''hello''])
   = Inr ''notes''"
  by (simp add: get_body_def container_def leaf_part_def is_plain_def get_content_type_def
      txt_of_def ascii_env_def strip_def lstrip_def rstrip_def strip_char_def lower_def)

lemma extract_body_attachment:
  "extract_body ascii_env
     (container ''multipart/mixed''
        [leaf_part ''text/plain'' (Some ''attachment'') ''notes'',
         leaf_part ''text/plain'' None ''hello''])
   = ''hello''"
  by (simp add: container_def leaf_part_def joined_plain_def get_content_type_def
      get_content_disposition_def strip_def lstrip_def rstrip_def is_space_def)

text \<open>
  Claim C1, which the parser of the pipeline does not meet. On a multipart message with
  two \<open>text/plain\<close> parts \<open>_get_body\<close> returns the first one alone, and it returns a
  \<open>text/plain\<close> part marked as an attachment when that part comes first.
  \<open>extract_text_from_email\<close> of the stand-alone builder joins both parts with a newline
  and passes over the attachment.
\<close>

theorem get_body_returns_first_plain_part_only:
  "get_body ascii_env
     (container ''multipart/mixed''
        [leaf_part ''text/plain'' None ''first'', leaf_part ''text/plain'' None ''second''])
     = Inr ''first''
   \<and> extract_body ascii_env
     (container ''multipart/mixed''
        [leaf_part ''text/plain'' None ''first'', leaf_part ''text/plain'' None ''second''])
     = ''first'' @ [CHR 0x0A] @ ''second''
   \<and> get_body ascii_env
     (container ''multipart/mixed''
        [leaf_part ''text/plain'' (Some ''attachment'') ''notes'',
         leaf_part ''text/plain'' None ''hello''])
     = Inr ''notes''
   \<and> extract_body ascii_env
     (container ''multipart/mixed''
        [leaf_part ''text/plain'' (Some ''attachment'') ''notes'',
         leaf_part ''text/plain'' None ''hello''])
     = ''hello''"
  using get_body_two_plain extract_body_two_plain get_body_attachment extract_body_attachment
  by blast

text \<open>
  Claim C3. In a multipart message that has a \<open>text/plain\<close> part, \<open>_get_body\<close> returns
  the decoded text of the first such part, whatever \<open>text/html\<close> parts there are and
  wherever they stand; the HTML branch is only taken when there is no \<open>text/plain\<close> part.
  In \<open>extract_text_from_email\<close> the joined \<open>text/plain\<close> parts are the body whenever
  they are not empty after trimming, and only otherwise is another part looked at.
\<close>

theorem text_plain_wins_over_html:
  assumes "is_multipart msg" and "\<exists>p\<in>set (walk msg). is_plain p"
  shows "(\<exists>q. find is_plain (walk msg) = Some q \<and> is_plain q \<and> \<not> is_html q
              \<and> q \<in> set (walk msg) \<and> get_body env msg = txt_of env q)
         \<and> (joined_plain env msg \<noteq> [] \<longrightarrow> extract_body env msg = joined_plain env msg)"
  using get_body_plain [OF assms] extract_body_plain [OF assms(1)] by blast

theorem text_plain_wins_over_html_witness:
  "get_body ascii_env
     (container ''multipart/alternative''
        [leaf_part ''text/html'' None ''<p>Hi</p>'', leaf_part ''text/plain'' None ''Hi''])
     = Inr ''Hi''
   \<and> extract_body ascii_env
     (container ''multipart/alternative''
        [leaf_part ''text/html'' None ''<p>Hi</p>'', leaf_part ''text/plain'' None ''Hi''])
     = ''Hi''"
proof -
  let ?m = "container ''multipart/alternative''
              [leaf_part ''text/html'' None ''<p>Hi</p>'', leaf_part ''text/plain'' None ''Hi'']"
  have m: "is_multipart ?m" by (simp add: container_def)
  have p: "\<exists>p\<in>set (walk ?m). is_plain p"
    by (simp add: container_def leaf_part_def is_plain_def get_content_type_def)
  have f: "find is_plain (walk ?m) = Some (leaf_part ''text/plain'' None ''Hi'')"
    by (simp add: container_def leaf_part_def is_plain_def get_content_type_def)
  have t: "txt_of ascii_env (leaf_part ''text/plain'' None ''Hi'') = Inr ''Hi''"
    by (simp add: leaf_part_def txt_of_def ascii_env_def strip_def lstrip_def rstrip_def
        strip_char_def lower_def)
  have j: "joined_plain ascii_env ?m = ''Hi''"
    by (simp add: container_def leaf_part_def joined_plain_def get_content_type_def
        get_content_disposition_def strip_def lstrip_def rstrip_def is_space_def)
  from text_plain_wins_over_html [OF m p, of ascii_env] f t j show ?thesis by auto
qed

section \<open>Properties of the cc count\<close>

lemma split_str_no_sep: "\<not> contains_str '', '' s \<Longrightarrow> split_str '', '' s = [s]"
  by (induction s) auto

lemma starts_with_sep_append:
  "\<not> starts_with '', '' (c # cs) \<Longrightarrow> \<not> starts_with '', '' ((c # cs) @ '', '' @ rest)"
  by (cases cs) (auto simp: starts_with_def)

lemma split_str_prefix:
  "\<not> contains_str '', '' x \<Longrightarrow> split_str '', '' (x @ '', '' @ rest) = x # split_str '', '' rest"
proof (induction x)
  case Nil
  show ?case by (simp add: starts_with_def)
next
  case (Cons c cs)
  then have a: "\<not> starts_with '', '' (c # cs)" and b: "\<not> contains_str '', '' cs" by auto
  from starts_with_sep_append [OF a, of rest] Cons.IH [OF b] show ?case by simp
qed

lemma split_str_join:
  "xs \<noteq> [] \<Longrightarrow> \<forall>x\<in>set xs. \<not> contains_str '', '' x \<Longrightarrow>
   split_str '', '' (join '', '' xs) = xs"
proof (induction "'', ''" xs rule: join.induct)
  case 1
  then show ?case by simp
next
  case (2 x)
  then show ?case by (simp add: split_str_no_sep)
next
  case (3 x y ys)
  then have "split_str '', '' (x @ '', '' @ join '', '' (y # ys)) = x # split_str '', '' (join '', '' (y # ys))"
    by (intro split_str_prefix) simp
  with 3 show ?case by simp
qed

lemma rederive_cc_txt:
  assumes "\<forall>a\<in>set addrs. a \<noteq> [] \<longrightarrow> \<not> contains_str '', '' a \<and> strip a \<noteq> []"
  shows "rederive_num_cc (cc_txt addrs) = count_cc addrs"
proof (cases "filter (\<lambda>a. a \<noteq> []) addrs = []")
  case True
  then show ?thesis by (simp add: rederive_num_cc_def cc_txt_def count_cc_def strip_def lstrip_def rstrip_def)
next
  case False
  let ?xs = "filter (\<lambda>a. a \<noteq> []) addrs"
  have "\<forall>x\<in>set ?xs. \<not> contains_str '', '' x" using assms by auto
  from split_str_join [OF False this]
  have s: "split_str '', '' (cc_txt addrs) = ?xs" by (simp add: cc_txt_def)
  have "filter (\<lambda>a. strip a \<noteq> []) ?xs = ?xs"
    unfolding filter_id_conv using assms by auto
  then show ?thesis by (simp add: rederive_num_cc_def s count_cc_def)
qed

text \<open>
  Claim C5, as amended. When no extracted address holds the separator \<open>", "\<close> and
  none is made of whitespace only, the \<open>num_cc\<close> of a row equals the number of non-empty
  entries obtained by splitting its \<open>cc\<close> text on \<open>", "\<close>, and the re-derivation of the
  Feature Engine applied to that \<open>cc\<close> cell gives the same number. This holds for the
  row built from any header reads \<open>hf\<close>, so for every row the loader builds.
\<close>

theorem num_cc_equals_resplit_of_cc:
  assumes "\<forall>a\<in>set (cc_addrs hf). a \<noteq> [] \<longrightarrow> \<not> contains_str '', '' a \<and> strip a \<noteq> []"
  shows "rederive_num_cc (cc (make_row lbl name hf body))
           = num_cc (make_row lbl name hf body)
         \<and> apply_num_cc (fillna [Str (cc (make_row lbl name hf body))])
           = Inr [Num (int (num_cc (make_row lbl name hf body)))]"
  using rederive_cc_txt [OF assms] by (simp add: make_row_def fillna_def)

lemma two_cc_headers_read:
  "read_headers ascii_env
     \<lparr> headers = [(''Cc'', ''a@x.org''), (''To'', ''t@x.org''), (''cc'', ''b@y.org'')],
       top_part = leaf_part ''text/plain'' None ''hi'' \<rparr>
   = Inr \<lparr> subj = '''', sender_hdr = '''', to_hdr = ''t@x.org'', recvd = [],
           cc_addrs = [''a@x.org'', ''b@y.org''] \<rparr>"
  by code_simp

theorem num_cc_equals_resplit_of_cc_witness:
  "read_headers ascii_env
     \<lparr> headers = [(''Cc'', ''a@x.org''), (''To'', ''t@x.org''), (''cc'', ''b@y.org'')],
       top_part = leaf_part ''text/plain'' None ''hi'' \<rparr>
     = Inr \<lparr> subj = '''', sender_hdr = '''', to_hdr = ''t@x.org'', recvd = [],
             cc_addrs = [''a@x.org'', ''b@y.org''] \<rparr>
   \<and> cc (make_row (Some ''ham'') ''m1''
         \<lparr> subj = '''', sender_hdr = '''', to_hdr = ''t@x.org'', recvd = [],
           cc_addrs = [''a@x.org'', ''b@y.org''] \<rparr> ''hi'')
     = ''a@x.org, b@y.org''
   \<and> rederive_num_cc ''a@x.org, b@y.org'' = 2
   \<and> num_cc (make_row (Some ''ham'') ''m1''
         \<lparr> subj = '''', sender_hdr = '''', to_hdr = ''t@x.org'', recvd = [],
           cc_addrs = [''a@x.org'', ''b@y.org''] \<rparr> ''hi'')
     = 2"
proof -
  let ?hf = "\<lparr> subj = '''', sender_hdr = '''', to_hdr = ''t@x.org'', recvd = [],
              cc_addrs = [''a@x.org'', ''b@y.org''] \<rparr>"
  have h: "\<forall>a\<in>set (cc_addrs ?hf). a \<noteq> [] \<longrightarrow> \<not> contains_str '', '' a \<and> strip a \<noteq> []"
    by (simp add: starts_with_def strip_def lstrip_def rstrip_def is_space_def)
  have c: "cc (make_row (Some ''ham'') ''m1'' ?hf ''hi'') = ''a@x.org, b@y.org''"
    by (simp add: make_row_def cc_txt_def)
  have n: "num_cc (make_row (Some ''ham'') ''m1'' ?hf ''hi'') = 2"
    by (simp add: make_row_def count_cc_def)
  from num_cc_equals_resplit_of_cc [OF h, of "Some ''ham''" "''m1''" "''hi''"] c n
       two_cc_headers_read
  show ?thesis by simp
qed

text \<open>
  Claim C5 as stated fails: one address with a quoted local part that holds a comma and
  a space is read from the \<open>Cc\<close> header as one address, counted once by the loader and
  twice after the \<open>cc\<close> text is split again.
\<close>

theorem num_cc_resplit_counterexample:
  "read_headers ascii_env
     \<lparr> headers = [(''Cc'', CHR 0x22 # ''a, b'' @ CHR 0x22 # ''@example.com'')],
       top_part = leaf_part ''text/plain'' None ''hi'' \<rparr>
     = Inr \<lparr> subj = '''', sender_hdr = '''', to_hdr = '''', recvd = [],
             cc_addrs = [CHR 0x22 # ''a, b'' @ CHR 0x22 # ''@example.com''] \<rparr>
   \<and> num_cc (make_row None ''m1''
         \<lparr> subj = '''', sender_hdr = '''', to_hdr = '''', recvd = [],
           cc_addrs = [CHR 0x22 # ''a, b'' @ CHR 0x22 # ''@example.com''] \<rparr> ''hi'')
     = 1
   \<and> rederive_num_cc (cc (make_row None ''m1''
         \<lparr> subj = '''', sender_hdr = '''', to_hdr = '''', recvd = [],
           cc_addrs = [CHR 0x22 # ''a, b'' @ CHR 0x22 # ''@example.com''] \<rparr> ''hi''))
     = 2"
  by code_simp

section \<open>Properties of the Feature Engine\<close>

lemma setitem_columns_list:
  "columns (setitem df c col) = (if c \<in> set (columns df) then columns df else columns df @ [c])"
  by (induction df) (auto simp: setitem_def columns_def)

lemma setitem_columns: "set (columns (setitem df c col)) = insert c (set (columns df))"
  by (auto simp: setitem_columns_list)
lemma update_cols:
  "set (columns (h[d := setitem (h ! d) c col] ! d)) \<subseteq> insert c (set (columns (h ! d)))"
  by (cases "d < length h") (auto simp: setitem_columns list_update_beyond)

lemma add_len_frame:
  assumes "add_len name src d h = (r, h')"
  shows "length h' = length h \<and> (\<forall>i. i \<noteq> d \<longrightarrow> h' ! i = h ! i)
         \<and> set (columns (h' ! d)) \<subseteq> insert name (set (columns (h ! d)))
         \<and> (\<forall>m ms. r \<noteq> Some (ValueError m ms))"
  using assms update_cols [of h d name]
  by (auto simp: add_len_def Let_def getitem_def str_accessor_def
           split: if_splits option.splits sum.splits)

lemma add_has_link_frame:
  assumes "add_has_link self d h = (r, h')"
  shows "length h' = length h \<and> (\<forall>i. i \<noteq> d \<longrightarrow> h' ! i = h ! i)
         \<and> set (columns (h' ! d)) \<subseteq> insert ''has_link'' (set (columns (h ! d)))
         \<and> (\<forall>m ms. r \<noteq> Some (ValueError m ms))"
  using assms update_cols [of h d "''has_link''"]
  by (auto simp: add_has_link_def Let_def getitem_def
           split: if_splits option.splits sum.splits)

lemma apply_num_cc_error: "apply_num_cc col = Inl e \<Longrightarrow> e = AttributeError"
  by (induction col rule: apply_num_cc.induct) (auto split: sum.splits)

lemma add_num_cc_frame:
  assumes "add_num_cc d h = (r, h')"
  shows "length h' = length h \<and> (\<forall>i. i \<noteq> d \<longrightarrow> h' ! i = h ! i)
         \<and> set (columns (h' ! d)) \<subseteq> insert ''num_cc'' (set (columns (h ! d)))
         \<and> (\<forall>m ms. r \<noteq> Some (ValueError m ms))"
  using assms update_cols [of h d "''num_cc''"]
  by (auto simp: add_num_cc_def Let_def getitem_def
           split: if_splits option.splits sum.splits dest: apply_num_cc_error)

lemma check_cols_frame:
  assumes "check_cols self d h = (r, h')"
  shows "h' = h"
  using assms by (auto simp: check_cols_def Let_def split: if_splits)
lemma then_do_cases:
  assumes "then_do (x, h1) f = (y, h2)"
  shows "(x \<noteq> None \<and> y = x \<and> h2 = h1) \<or> (x = None \<and> f h1 = (y, h2))"
  using assms by (cases x) (auto simp: then_do_def)

lemma steps_frame:
  assumes "then_do (then_do (then_do (then_do (add_len n1 s1 d h0) (add_len n2 s2 d))
             (add_has_link self d)) (add_num_cc d)) (check_cols self d) = (r, h')"
  shows "frame d {n1, n2, ''has_link'', ''num_cc''} h0 h'
         \<and> (r = None \<longrightarrow> missing_of (cols self) (h' ! d) = [])
         \<and> (\<forall>m ms. r = Some (ValueError m ms) \<longrightarrow> ms = missing_of (cols self) (h' ! d))"
proof -
  obtain x1 h1 where s1: "add_len n1 s1 d h0 = (x1, h1)" by force
  obtain x2 h2 where s2: "then_do (x1, h1) (add_len n2 s2 d) = (x2, h2)" by force
  obtain x3 h3 where s3: "then_do (x2, h2) (add_has_link self d) = (x3, h3)" by force
  obtain x4 h4 where s4: "then_do (x3, h3) (add_num_cc d) = (x4, h4)" by force
  have s5: "then_do (x4, h4) (check_cols self d) = (r, h')"
    using assms by (simp add: s1 s2 s3 s4)
  have f1: "frame d {n1} h0 h1" and e1: "\<forall>m ms. x1 \<noteq> Some (ValueError m ms)"
    using add_len_frame [OF s1] by auto
  have f2: "frame d {n2} h1 h2" and e2: "\<forall>m ms. x2 \<noteq> Some (ValueError m ms)"
    using then_do_cases [OF s2] e1 add_len_frame [of n2 s2 d h1 x2 h2] by auto
  have f3: "frame d {''has_link''} h2 h3" and e3: "\<forall>m ms. x3 \<noteq> Some (ValueError m ms)"
    using then_do_cases [OF s3] e2 add_has_link_frame [of self d h2 x3 h3] by auto
  have f4: "frame d {''num_cc''} h3 h4" and e4: "\<forall>m ms. x4 \<noteq> Some (ValueError m ms)"
    using then_do_cases [OF s4] e3 add_num_cc_frame [of d h3 x4 h4] by auto
  have h5: "h' = h4"
    using then_do_cases [OF s5] check_cols_frame [of self d h4 r h'] by auto
  have f: "frame d {n1, n2, ''has_link'', ''num_cc''} h0 h4"
  proof (intro conjI allI impI)
    show "length h4 = length h0" using f1 f2 f3 f4 by simp
  next
    fix i assume "i \<noteq> d"
    then show "h4 ! i = h0 ! i" using f1 f2 f3 f4 by simp
  next
    show "set (columns (h4 ! d)) \<subseteq> set (columns (h0 ! d)) \<union> {n1, n2, ''has_link'', ''num_cc''}"
      using f1 f2 f3 f4 by blast
  qed
  have c: "(r = None \<longrightarrow> missing_of (cols self) (h4 ! d) = [])
           \<and> (\<forall>m ms. r = Some (ValueError m ms) \<longrightarrow> ms = missing_of (cols self) (h4 ! d))"
    using then_do_cases [OF s5] e4
    by (auto simp: check_cols_def Let_def split: if_splits)
  from f c h5 show ?thesis by simp
qed

lemma feature_call_frame:
  assumes "feature_call self a h = (res, h')"
  shows "take (length h) h' = h
         \<and> (\<forall>r. res = Inr r \<longrightarrow> r = Suc (length h) \<and> length h' = Suc (Suc (length h)))
         \<and> (\<forall>e. res = Inl e \<longrightarrow> length h' = Suc (length h))"
proof -
  let ?d = "length h"
  let ?h0 = "h @ [h ! a]"
  obtain r5 h5 where s: "then_do (then_do (then_do (then_do
        (add_len ''subject_len'' (subject_col self) ?d ?h0)
        (add_len ''content_len'' (content_col self) ?d))
        (add_has_link self ?d)) (add_num_cc ?d)) (check_cols self ?d) = (r5, h5)"
    by force
  from steps_frame [OF s] have len: "length h5 = Suc ?d"
    and same: "\<forall>i. i \<noteq> ?d \<longrightarrow> h5 ! i = ?h0 ! i" by auto
  have tk: "take ?d h5 = h"
  proof (rule nth_equalityI)
    show "length (take ?d h5) = length h" using len by simp
  next
    fix i assume "i < length (take ?d h5)"
    then have i: "i < ?d" by simp
    then show "take ?d h5 ! i = h ! i" using same by (simp add: nth_append)
  qed
  show ?thesis
  proof (cases r5)
    case None
    then have "feature_call self a h = (Inr (length h5), h5 @ [h5 ! ?d])"
      using s by (simp add: feature_call_def copy_df_def Let_def)
    with assms tk len show ?thesis by auto
  next
    case (Some e)
    then have "feature_call self a h = (Inl e, h5)"
      using s by (simp add: feature_call_def copy_df_def Let_def)
    with assms tk len show ?thesis by auto
  qed
qed
lemma feature_call_cases:
  assumes "feature_call self a h = (res, h')"
  shows "\<exists>df'. set (columns df') \<subseteq> set (columns (h ! a))
                  \<union> {''subject_len'', ''content_len'', ''has_link'', ''num_cc''}
           \<and> (\<forall>r. res = Inr r \<longrightarrow> missing_of (cols self) df' = [] \<and> h' ! r = df')
           \<and> (\<forall>m ms. res = Inl (ValueError m ms) \<longrightarrow> ms = missing_of (cols self) df')"
proof -
  let ?d = "length h"
  let ?h0 = "h @ [h ! a]"
  obtain r5 h5 where s: "then_do (then_do (then_do (then_do
        (add_len ''subject_len'' (subject_col self) ?d ?h0)
        (add_len ''content_len'' (content_col self) ?d))
        (add_has_link self ?d)) (add_num_cc ?d)) (check_cols self ?d) = (r5, h5)"
    by force
  from steps_frame [OF s] have len: "length h5 = Suc ?d"
    and sub: "set (columns (h5 ! ?d)) \<subseteq> set (columns (h ! a))
                \<union> {''subject_len'', ''content_len'', ''has_link'', ''num_cc''}"
    and none: "r5 = None \<longrightarrow> missing_of (cols self) (h5 ! ?d) = []"
    and verr: "\<forall>m ms. r5 = Some (ValueError m ms) \<longrightarrow> ms = missing_of (cols self) (h5 ! ?d)"
    by auto
  have "(\<forall>r. res = Inr r \<longrightarrow> missing_of (cols self) (h5 ! ?d) = [] \<and> h' ! r = h5 ! ?d)
        \<and> (\<forall>m ms. res = Inl (ValueError m ms) \<longrightarrow> ms = missing_of (cols self) (h5 ! ?d))"
  proof (cases r5)
    case None
    then have "feature_call self a h = (Inr (length h5), h5 @ [h5 ! ?d])"
      using s by (simp add: feature_call_def copy_df_def Let_def)
    with assms none None show ?thesis by auto
  next
    case (Some e)
    then have "feature_call self a h = (Inl e, h5)"
      using s by (simp add: feature_call_def copy_df_def Let_def)
    with assms verr Some show ?thesis by auto
  qed
  with sub show ?thesis by blast
qed

lemma assemble_missing:
  assumes "''num_hops'' \<notin> set (columns df)"
  shows "\<exists>ms. assemble df out fs
               = (Some (ValueError ''load_data() did not return expected columns: missing='' ms), fs)
             \<and> ''num_hops'' \<in> set ms"
proof -
  have m: "''num_hops'' \<in> set (missing_of keep df)"
    using assms by (simp add: missing_of_def keep_def)
  then have "missing_of keep df \<noteq> []" by auto
  with m show ?thesis by (simp add: assemble_def Let_def)
qed

lemma featurize_missing:
  assumes "''num_hops'' \<notin> set (columns df)"
  shows "\<exists>e. featurize_and_assemble df out fs = (Some e, fs)
             \<and> (\<forall>m ms. e = ValueError m ms \<longrightarrow> ''num_hops'' \<in> set ms)"
proof -
  obtain res h' where fc: "feature_call default_features 0 [df] = (res, h')" by force
  from feature_call_cases [OF fc] obtain df' where
    sub: "set (columns df') \<subseteq> set (columns df)
            \<union> {''subject_len'', ''content_len'', ''has_link'', ''num_cc''}"
    and ok: "\<forall>r. res = Inr r \<longrightarrow> missing_of (cols default_features) df' = []"
    and err: "\<forall>m ms. res = Inl (ValueError m ms) \<longrightarrow> ms = missing_of (cols default_features) df'"
    by auto
  have "''num_hops'' \<notin> set (columns df')" using sub assms by auto
  then have m: "''num_hops'' \<in> set (missing_of (cols default_features) df')"
    by (simp add: missing_of_def default_features_def)
  then have "missing_of (cols default_features) df' \<noteq> []" by auto
  with ok obtain e where e: "res = Inl e" by (cases res) auto
  with err m have "\<forall>m ms. e = ValueError m ms \<longrightarrow> ''num_hops'' \<in> set ms" by auto
  with e fc show ?thesis by (simp add: featurize_and_assemble_def)
qed

lemma then_do_Some: "then_do (Some e, h) f = (Some e, h)"
  by (simp add: then_do_def)

lemma then_do_None: "then_do (None, h) f = f h"
  by (simp add: then_do_def)

lemma add_len_outcome:
  "add_len name src d h = (r, h') \<Longrightarrow> r = None \<or> r = Some AttributeError"
  by (auto simp: add_len_def Let_def getitem_def str_accessor_def columns_def
           split: if_splits option.splits sum.splits dest: map_of_SomeD weak_map_of_SomeI)

lemma map_of_None_columns: "c \<notin> set (columns df) \<Longrightarrow> map_of df c = None"
  by (simp add: columns_def map_of_eq_None_iff)

lemma add_has_link_keyerror:
  assumes "''has_link'' \<notin> set (columns (h ! d))"
    and "subject_col self \<notin> set (columns (h ! d)) \<or> content_col self \<notin> set (columns (h ! d))"
  shows "add_has_link self d h = (Some (KeyError (subject_col self)), h)
       \<or> add_has_link self d h = (Some (KeyError (content_col self)), h)"
  using assms
  by (auto simp: add_has_link_def Let_def getitem_def map_of_None_columns split: option.splits)

lemma feature_call_Some:
  assumes "then_do (then_do (then_do (then_do
        (add_len ''subject_len'' (subject_col self) (length h) (h @ [h ! a]))
        (add_len ''content_len'' (content_col self) (length h)))
        (add_has_link self (length h))) (add_num_cc (length h))) (check_cols self (length h))
        = (Some e, h5)"
  shows "feature_call self a h = (Inl e, h5)"
  using assms by (simp add: feature_call_def copy_df_def Let_def)

lemma no_schema_error:
  assumes hl: "''has_link'' \<notin> set (columns (h ! a))"
    and sc: "''subject'' \<notin> set (columns (h ! a)) \<or> ''content'' \<notin> set (columns (h ! a))"
  shows "fst (feature_call default_features a h) = Inl (KeyError ''subject'')
       \<or> fst (feature_call default_features a h) = Inl (KeyError ''content'')
       \<or> fst (feature_call default_features a h) = Inl AttributeError"
proof -
  let ?self = default_features
  let ?d = "length h"
  let ?h0 = "h @ [h ! a]"
  have sub [simp]: "subject_col ?self = ''subject''" and con [simp]: "content_col ?self = ''content''"
    by (simp_all add: default_features_def)
  obtain x1 h1 where s1: "add_len ''subject_len'' ''subject'' ?d ?h0 = (x1, h1)" by force
  obtain x2 h2 where s2: "add_len ''content_len'' ''content'' ?d h1 = (x2, h2)" by force
  from add_len_frame [OF s1] have c1: "set (columns (h1 ! ?d)) \<subseteq> insert ''subject_len'' (set (columns (h ! a)))"
    by simp
  from add_len_frame [OF s2] c1 have c2:
    "set (columns (h2 ! ?d)) \<subseteq> {''subject_len'', ''content_len''} \<union> set (columns (h ! a))"
    by auto
  have hl2: "''has_link'' \<notin> set (columns (h2 ! ?d))" using c2 hl by auto
  have sc2: "subject_col ?self \<notin> set (columns (h2 ! ?d)) \<or> content_col ?self \<notin> set (columns (h2 ! ?d))"
    using c2 sc by auto
  show ?thesis
  proof (cases x1)
    case (Some e1)
    then have "e1 = AttributeError" using add_len_outcome [OF s1] by simp
    with Some s1 have "feature_call ?self a h = (Inl AttributeError, h1)"
      by (intro feature_call_Some) (simp add: then_do_Some)
    then show ?thesis by simp
  next
    case None
    show ?thesis
    proof (cases x2)
      case (Some e2)
      then have "e2 = AttributeError" using add_len_outcome [OF s2] by simp
      with Some s1 s2 None have "feature_call ?self a h = (Inl AttributeError, h2)"
        by (intro feature_call_Some) (simp add: then_do_Some then_do_None)
      then show ?thesis by simp
    next
      case x2: None
      from add_has_link_keyerror [OF hl2 sc2]
      consider "add_has_link ?self ?d h2 = (Some (KeyError ''subject''), h2)"
        | "add_has_link ?self ?d h2 = (Some (KeyError ''content''), h2)" by auto
      then show ?thesis
      proof cases
        case 1
        with s1 s2 None x2 have "feature_call ?self a h = (Inl (KeyError ''subject''), h2)"
          by (intro feature_call_Some) (simp add: then_do_Some then_do_None)
        then show ?thesis by simp
      next
        case 2
        with s1 s2 None x2 have "feature_call ?self a h = (Inl (KeyError ''content''), h2)"
          by (intro feature_call_Some) (simp add: then_do_Some then_do_None)
        then show ?thesis by simp
      qed
    qed
  qed
qed

text \<open>
  Claim C10. The Feature Engine does not change the caller's table. Called with a valid
  reference, it leaves every table that was in the store as it was, whether it returns
  or raises; what it returns is a reference to a table allocated by the call, different
  from the caller's.
\<close>

theorem feature_engine_leaves_input_unchanged:
  assumes "a < length h" and "feature_call self a h = (res, h')"
  shows "h' ! a = h ! a \<and> take (length h) h' = h
         \<and> (\<forall>r. res = Inr r \<longrightarrow> r \<noteq> a \<and> length h \<le> r \<and> r < length h')"
proof -
  from feature_call_frame [OF assms(2)] have
    tk: "take (length h) h' = h"
    and ok: "\<forall>r. res = Inr r \<longrightarrow> r = Suc (length h) \<and> length h' = Suc (Suc (length h))"
    by auto
  have "h' ! a = take (length h) h' ! a" using assms(1) by simp
  with tk have "h' ! a = h ! a" by simp
  with tk ok assms(1) show ?thesis by auto
qed

lemma feature_call_example:
  "feature_call default_features 0
     [[(''subject'', [Str ''Win now'']), (''content'', [Str ''see www.x.org'']),
       (''cc'', [Str ''a@b, c@d'']), (''num_hops'', [Num 0])]]
   = (Inr 2,
      [[(''subject'', [Str ''Win now'']), (''content'', [Str ''see www.x.org'']),
        (''cc'', [Str ''a@b, c@d'']), (''num_hops'', [Num 0])],
       [(''subject'', [Str ''Win now'']), (''content'', [Str ''see www.x.org'']),
        (''cc'', [Str ''a@b, c@d'']), (''num_hops'', [Num 0]),
        (''subject_len'', [Num 7]), (''content_len'', [Num 13]),
        (''has_link'', [Num 1]), (''num_cc'', [Num 2])],
       [(''subject'', [Str ''Win now'']), (''content'', [Str ''see www.x.org'']),
        (''cc'', [Str ''a@b, c@d'']), (''num_hops'', [Num 0]),
        (''subject_len'', [Num 7]), (''content_len'', [Num 13]),
        (''has_link'', [Num 1]), (''num_cc'', [Num 2])]])"
  by code_simp

theorem feature_engine_leaves_input_unchanged_witness:
  "fst (feature_call default_features 0
     [[(''subject'', [Str ''Win now'']), (''content'', [Str ''see www.x.org'']),
       (''cc'', [Str ''a@b, c@d'']), (''num_hops'', [Num 0])]]) = Inr 2
   \<and> snd (feature_call default_features 0
     [[(''subject'', [Str ''Win now'']), (''content'', [Str ''see www.x.org'']),
       (''cc'', [Str ''a@b, c@d'']), (''num_hops'', [Num 0])]]) ! 0
     = [(''subject'', [Str ''Win now'']), (''content'', [Str ''see www.x.org'']),
        (''cc'', [Str ''a@b, c@d'']), (''num_hops'', [Num 0])]
   \<and> columns (snd (feature_call default_features 0
     [[(''subject'', [Str ''Win now'']), (''content'', [Str ''see www.x.org'']),
       (''cc'', [Str ''a@b, c@d'']), (''num_hops'', [Num 0])]]) ! 2)
     = [''subject'', ''content'', ''cc'', ''num_hops'',
        ''subject_len'', ''content_len'', ''has_link'', ''num_cc'']"
proof -
  let ?t = "[(''subject'', [Str ''Win now'']), (''content'', [Str ''see www.x.org'']),
             (''cc'', [Str ''a@b, c@d'']), (''num_hops'', [Num 0])]"
  have a: "0 < length [?t]" by simp
  from feature_engine_leaves_input_unchanged [OF a feature_call_example]
  have "snd (feature_call default_features 0 [?t]) ! 0 = ?t"
    by (simp add: feature_call_example)
  then show ?thesis by (simp add: feature_call_example columns_def)
qed

text \<open>
  Claim C6, which the Feature Engine does not meet. On a table that lacks the subject
  or the content column and has no \<open>has_link\<close> column, the call never reaches the check
  that raises the error listing the missing columns: the \<open>has_link\<close> statement reads both
  columns without testing for them, so the error is the \<open>KeyError\<close> of the column access
  (or the \<open>AttributeError\<close> of an earlier \<open>.str\<close> access), never the \<open>ValueError\<close>.
\<close>

theorem feature_engine_raises_keyerror_not_missing_columns:
  assumes "''has_link'' \<notin> set (columns (h ! a))"
    and "''subject'' \<notin> set (columns (h ! a)) \<or> ''content'' \<notin> set (columns (h ! a))"
  shows "fst (feature_call default_features a h) = Inl (KeyError ''subject'')
       \<or> fst (feature_call default_features a h) = Inl (KeyError ''content'')
       \<or> fst (feature_call default_features a h) = Inl AttributeError"
  using no_schema_error [OF assms] .

theorem feature_engine_raises_keyerror_not_missing_columns_witness:
  "fst (feature_call default_features 0
      [[(''content'', [Str ''Lunch at noon?'']), (''num_cc'', [Num 0]), (''num_hops'', [Num 0])]])
   = Inl (KeyError ''subject'')"
proof -
  let ?t = "[(''content'', [Str ''Lunch at noon?'']), (''num_cc'', [Num 0]), (''num_hops'', [Num 0])]"
  have a: "''has_link'' \<notin> set (columns ([?t] ! 0))" by (simp add: columns_def)
  have b: "''subject'' \<notin> set (columns ([?t] ! 0)) \<or> ''content'' \<notin> set (columns ([?t] ! 0))"
    by (simp add: columns_def)
  have c: "fst (feature_call default_features 0 [?t]) \<noteq> Inl (KeyError ''content'')"
    and d: "fst (feature_call default_features 0 [?t]) \<noteq> Inl AttributeError"
    by (simp_all add: feature_call_def copy_df_def default_features_def add_len_def
        add_has_link_def then_do_def getitem_def setitem_def columns_def str_accessor_def
        fillna_def str_len_def Let_def)
  from feature_engine_raises_keyerror_not_missing_columns [OF a b] c d
  show ?thesis by blast
qed

section \<open>Properties of the Dataset Assembler\<close>

lemma assemble_example:
  "assemble
     [(''sender'', [Str ''s@x.org'']), (''recipient'', [NaN]), (''num_cc'', [Num 0]),
      (''subject'', [Str ''Hi'']), (''content'', [Str ''Lunch at noon?'']),
      (''subject_len'', [Num 2]), (''content_len'', [Num 14]), (''has_link'', [Num 0]),
      (''label'', [Str ''ham''])]
     [''data'', ''processed'', ''out.csv'']
     \<lparr> dirs = [[''data'']], files = [([''data'', ''processed'', ''out.csv''], [])] \<rparr>
   = (Some (ValueError ''load_data() did not return expected columns: missing='' [''num_hops'']),
      \<lparr> dirs = [[''data'']], files = [([''data'', ''processed'', ''out.csv''], [])] \<rparr>)"
  by (simp add: assemble_def missing_of_def keep_def columns_def)

text \<open>
  Claim C7. On a table without the column \<open>num_hops\<close> the Dataset Assembler fails with
  the error that lists the missing columns, \<open>num_hops\<close> among them, and the file system
  is as it was: no directory is created and no file is written or overwritten. The same
  holds when the table first goes through the Feature Engine, as in \<open>main\<close>: the run
  fails, nothing is written, and the error, when it is the one that lists missing
  columns, names \<open>num_hops\<close>.
\<close>

theorem assembler_rejects_missing_num_hops:
  assumes "''num_hops'' \<notin> set (columns df)"
  shows "(\<exists>ms. assemble df out fs
               = (Some (ValueError ''load_data() did not return expected columns: missing='' ms), fs)
             \<and> ''num_hops'' \<in> set ms)
         \<and> (\<exists>e. featurize_and_assemble df out fs = (Some e, fs)
               \<and> (\<forall>m ms. e = ValueError m ms \<longrightarrow> ''num_hops'' \<in> set ms))"
  using assemble_missing [OF assms] featurize_missing [OF assms] by blast

theorem assembler_rejects_missing_num_hops_witness:
  "assemble
     [(''sender'', [Str ''s@x.org'']), (''recipient'', [NaN]), (''num_cc'', [Num 0]),
      (''subject'', [Str ''Hi'']), (''content'', [Str ''Lunch at noon?'']),
      (''subject_len'', [Num 2]), (''content_len'', [Num 14]), (''has_link'', [Num 0]),
      (''label'', [Str ''ham''])]
     [''data'', ''processed'', ''out.csv'']
     \<lparr> dirs = [[''data'']], files = [([''data'', ''processed'', ''out.csv''], [])] \<rparr>
   = (Some (ValueError ''load_data() did not return expected columns: missing='' [''num_hops'']),
      \<lparr> dirs = [[''data'']], files = [([''data'', ''processed'', ''out.csv''], [])] \<rparr>)
   \<and> snd (featurize_and_assemble
     [(''sender'', [Str ''s@x.org'']), (''recipient'', [NaN]), (''num_cc'', [Num 0]),
      (''subject'', [Str ''Hi'']), (''content'', [Str ''Lunch at noon?'']),
      (''subject_len'', [Num 2]), (''content_len'', [Num 14]), (''has_link'', [Num 0]),
      (''label'', [Str ''ham''])]
     [''data'', ''processed'', ''out.csv'']
     \<lparr> dirs = [[''data'']], files = [([''data'', ''processed'', ''out.csv''], [])] \<rparr>)
   = \<lparr> dirs = [[''data'']], files = [([''data'', ''processed'', ''out.csv''], [])] \<rparr>"
proof -
  let ?df = "[(''sender'', [Str ''s@x.org'']), (''recipient'', [NaN]), (''num_cc'', [Num 0]),
      (''subject'', [Str ''Hi'']), (''content'', [Str ''Lunch at noon?'']),
      (''subject_len'', [Num 2]), (''content_len'', [Num 14]), (''has_link'', [Num 0]),
      (''label'', [Str ''ham''])]"
  let ?out = "[''data'', ''processed'', ''out.csv'']"
  let ?fs = "\<lparr> dirs = [[''data'']], files = [([''data'', ''processed'', ''out.csv''], [])] \<rparr>"
  have h: "''num_hops'' \<notin> set (columns ?df)" by (simp add: columns_def)
  from assembler_rejects_missing_num_hops [OF h, of ?out ?fs]
  obtain e where "featurize_and_assemble ?df ?out ?fs = (Some e, ?fs)" by blast
  then have "snd (featurize_and_assemble ?df ?out ?fs) = ?fs" by simp
  with assemble_example show ?thesis by blast
qed

end
